theory Spec2Isabelle
  imports Complex_Main "HOL-Library.Sublist" "HOL-Library.Log_Nat"
begin

section \<open>Shared types\<close>

text \<open>
  The enumerations of the shared type declarations
  (\<^verbatim>\<open>MeetingStatus\<close>, \<^verbatim>\<open>NodeType\<close>, \<^verbatim>\<open>EdgeRelation\<close>), which the
  schema enforces with check constraints on the text columns.
\<close>

datatype meeting_status = Recording | Processing | Analyzing | Linking | Done | Failed

datatype node_type = Meeting | Note | Action | Decision

datatype edge_relation = Continues | References | Contradicts | Resolves

section \<open>JavaScript strings\<close>

text \<open>
  A JavaScript string is a sequence of UTF-16 code units, each modelled by its number.
  \<open>js\<close> writes an ASCII literal. \<^verbatim>\<open>trim\<close> and the class \<^verbatim>\<open>\s\<close> of regular
  expressions remove the same code units: white space and line terminators.
\<close>

type_synonym jsstring = "nat list"

abbreviation js :: "string \<Rightarrow> jsstring" where
  "js s \<equiv> map of_char s"

definition is_space :: "nat \<Rightarrow> bool" where
  "is_space c =
     (c \<in> set [9, 10, 11, 12, 13, 32, 160, 5760, 8232, 8233, 8239, 8287, 12288, 65279]
      \<or> (8192 \<le> c \<and> c \<le> 8202))"

definition is_digit :: "nat \<Rightarrow> bool" where
  "is_digit c = (48 \<le> c \<and> c \<le> 57)"

definition trim :: "jsstring \<Rightarrow> jsstring" where
  "trim s = rev (dropWhile is_space (rev (dropWhile is_space s)))"

text \<open>\<^verbatim>\<open>s.split("\n")\<close>: the empty string splits into one empty line.\<close>

fun split_lines :: "jsstring \<Rightarrow> jsstring list" where
  "split_lines [] = [[]]"
| "split_lines (c # cs) =
     (if c = 10 then [] # split_lines cs
      else (case split_lines cs of [] \<Rightarrow> [[c]] | l # ls \<Rightarrow> (c # l) # ls))"

text \<open>\<^verbatim>\<open>s.replace(pat, "")\<close> with a string pattern: the first occurrence goes.\<close>

fun replace_first :: "jsstring \<Rightarrow> jsstring \<Rightarrow> jsstring" where
  "replace_first pat [] = []"
| "replace_first pat (c # cs) =
     (if prefix pat (c # cs) then drop (length pat) (c # cs) else c # replace_first pat cs)"

text \<open>\<^verbatim>\<open>xs.join(sep)\<close>.\<close>

fun join :: "jsstring \<Rightarrow> jsstring list \<Rightarrow> jsstring" where
  "join sep [] = []"
| "join sep [x] = x"
| "join sep (x # y # ys) = x @ sep @ join sep (y # ys)"

text \<open>
  A letter of a pattern under the flag \<^verbatim>\<open>i\<close> (without \<^verbatim>\<open>u\<close>) matches its upper
  and its lower case form and no code unit from 128 on. \<open>ci_word\<close> takes the pattern
  in upper case.
\<close>

definition ci_word :: "string \<Rightarrow> jsstring \<Rightarrow> bool" where
  "ci_word pat w = list_all2 (\<lambda>c u. c = u \<or> c = u + 32) w (js pat)"

section \<open>Transcription stage: parsing the transcript\<close>

text \<open>
  \<^verbatim>\<open>line.match(/^(Speaker\s*\d+)\s*:\s*/i)\<close>. The classes of the pattern are
  disjoint, so the greedy match is the only one. The result is the pair of the whole
  match \<^verbatim>\<open>spk[0]\<close> and of the group \<^verbatim>\<open>spk[1]\<close>.
\<close>

definition match_speaker :: "jsstring \<Rightarrow> (jsstring \<times> jsstring) option" where
  "match_speaker line =
     (let w = take 7 line; r1 = drop 7 line;
          ws1 = takeWhile is_space r1; r2 = dropWhile is_space r1;
          ds = takeWhile is_digit r2; r3 = dropWhile is_digit r2;
          ws2 = takeWhile is_space r3; r4 = dropWhile is_space r3
      in if \<not> ci_word ''SPEAKER'' w \<or> ds = [] then None
         else (case r4 of
                 [] \<Rightarrow> None
               | c # r5 \<Rightarrow>
                   if c = 58
                   then Some (w @ ws1 @ ds @ ws2 @ [58] @ takeWhile is_space r5, w @ ws1 @ ds)
                   else None))"

record segment =
  seg_meeting_id :: jsstring
  speaker_label :: "jsstring option"
  seg_text :: jsstring
  start_seconds :: nat
  end_seconds :: nat
  confidence :: "real option"
  seg_language :: jsstring

definition line_segment :: "jsstring \<Rightarrow> jsstring \<Rightarrow> jsstring \<Rightarrow> segment" where
  "line_segment meetingId language_code line =
     (case match_speaker line of
        None \<Rightarrow>
          \<lparr>seg_meeting_id = meetingId, speaker_label = None, seg_text = line,
           start_seconds = 0, end_seconds = 0, confidence = None, seg_language = language_code\<rparr>
      | Some (spk0, spk1) \<Rightarrow>
          \<lparr>seg_meeting_id = meetingId, speaker_label = Some spk1,
           seg_text = trim (replace_first spk0 line),
           start_seconds = 0, end_seconds = 0, confidence = None, seg_language = language_code\<rparr>)"

fun parse_lines :: "jsstring \<Rightarrow> jsstring \<Rightarrow> jsstring list \<Rightarrow> segment list" where
  "parse_lines meetingId language_code [] = []"
| "parse_lines meetingId language_code (l # ls) =
     (if trim l = [] then parse_lines meetingId language_code ls
      else line_segment meetingId language_code (trim l) # parse_lines meetingId language_code ls)"

definition no_speech_segment :: "jsstring \<Rightarrow> jsstring \<Rightarrow> segment" where
  "no_speech_segment meetingId language_code =
     \<lparr>seg_meeting_id = meetingId, speaker_label = None,
      seg_text = js ''[No speech detected in this recording]'',
      start_seconds = 0, end_seconds = 0, confidence = None, seg_language = language_code\<rparr>"

definition build_segments :: "jsstring \<Rightarrow> jsstring \<Rightarrow> jsstring \<Rightarrow> segment list" where
  "build_segments meetingId language_code transcript =
     (let segments =
            (if trim transcript \<noteq> [] \<and> trim transcript \<noteq> js ''[inaudible]''
             then parse_lines meetingId language_code (split_lines (trim transcript))
             else [])
      in if length segments = 0 then [no_speech_segment meetingId language_code] else segments)"

text \<open>The lines of a transcript that the loop does not skip, trimmed.\<close>

definition transcript_lines :: "jsstring \<Rightarrow> jsstring list" where
  "transcript_lines transcript =
     filter (\<lambda>l. l \<noteq> []) (map trim (split_lines (trim transcript)))"

section \<open>JavaScript numbers\<close>

text \<open>
  A JavaScript number is an IEEE 754 binary64 value, modelled by the real it stands for.
  The result of an arithmetic operation is the exact result rounded to the nearest
  binary64 value, a tie going to the even significand: \<open>binary64\<close> is this rounding.
  \<open>binade x\<close> is the exponent \<open>e\<close> of a positive \<open>x\<close>, the one with
  \<open>pow2 e \<le> x < pow2 (e + 1)\<close>; the binary64 values there are the multiples of
  \<open>pow2 (e - 52)\<close>, and below \<open>pow2 (- 1022)\<close> the multiples of \<open>pow2 (- 1074)\<close>. The
  overflow to infinity (from about 1.8e308 on), the sign of zero and \<^verbatim>\<open>NaN\<close> are not
  modelled.
\<close>

definition pow2 :: "int \<Rightarrow> real" where
  "pow2 e = (if 0 \<le> e then 2 ^ nat e else 1 / 2 ^ nat (- e))"

definition binade :: "real \<Rightarrow> int" where
  "binade x = (if 1 \<le> x then bitlen \<lfloor>x\<rfloor> - 1 else - bitlen (\<lceil>1 / x\<rceil> - 1))"

definition round_even :: "real \<Rightarrow> int" where
  "round_even q =
     (if frac q < 1 / 2 then \<lfloor>q\<rfloor>
      else if frac q > 1 / 2 then \<lfloor>q\<rfloor> + 1
      else if even \<lfloor>q\<rfloor> then \<lfloor>q\<rfloor> else \<lfloor>q\<rfloor> + 1)"

definition binary64 :: "real \<Rightarrow> real" where
  "binary64 x =
     (if x = 0 then 0
      else real_of_int (round_even (x / pow2 (max (binade \<bar>x\<bar>) (- 1022) - 52)))
             * pow2 (max (binade \<bar>x\<bar>) (- 1022) - 52))"

text \<open>
  \<^verbatim>\<open>Math.round(x)\<close> is the integer nearest to \<open>x\<close>, a tie going up; the result is
  exact.
\<close>

definition Math_round :: "real \<Rightarrow> int" where
  "Math_round x = \<lfloor>x + 1 / 2\<rfloor>"

section \<open>Linking stage: the edge accumulation loop\<close>

definition SIMILARITY_THRESHOLD :: real where
  "SIMILARITY_THRESHOLD = 0.65"

definition MAX_RELATED :: nat where
  "MAX_RELATED = 5"

text \<open>A row returned by the insert of the candidate nodes (\<^verbatim>\<open>select("id, node_type, embedding")\<close>).\<close>

record inserted_node =
  node_id :: jsstring
  node_type :: node_type
  embedding :: "real list option"

text \<open>A row returned by the \<^verbatim>\<open>search_nodes\<close> remote procedure.\<close>

record match_row =
  match_id :: jsstring
  match_node_type :: node_type
  similarity :: real

record edge =
  from_node :: jsstring
  to_node :: jsstring
  relation :: edge_relation
  strength :: real

definition alreadyHasEdge :: "edge list \<Rightarrow> jsstring \<Rightarrow> jsstring \<Rightarrow> bool" where
  "alreadyHasEdge edgesToInsert n m =
     list_ex (\<lambda>e. (from_node e = n \<and> to_node e = m) \<or> (from_node e = m \<and> to_node e = n))
       edgesToInsert"

text \<open>
  The relation of an edge. The literal \<^verbatim>\<open>0.85\<close> is the binary64 value nearest to 0.85,
  which lies below it with no binary64 value in between, so that a binary64 similarity is
  above the one exactly when it is above the other.
\<close>

definition derive_relation :: "node_type \<Rightarrow> node_type \<Rightarrow> real \<Rightarrow> edge_relation" where
  "derive_relation nt mt sim =
     (if nt = Meeting \<and> mt = Meeting then Continues
      else if nt = Decision \<and> mt = Decision then (if sim > 0.85 then Resolves else References)
      else References)"

text \<open>
  The pushed edge. Its strength is \<^verbatim>\<open>Math.round(match.similarity * 100) / 100\<close>: the
  product and the quotient are binary64 operations.
\<close>

definition make_edge :: "inserted_node \<Rightarrow> match_row \<Rightarrow> edge" where
  "make_edge node m =
     \<lparr>from_node = node_id node, to_node = match_id m,
      relation = derive_relation (node_type node) (match_node_type m) (similarity m),
      strength =
        binary64 (real_of_int (Math_round (binary64 (similarity m * 100))) / 100)\<rparr>"

text \<open>
  The inner loop over the matches of one node. \<open>cap\<close> is
  \<^verbatim>\<open>MAX_RELATED * nodesToInsert.length\<close>; the \<^verbatim>\<open>break\<close> leaves this loop only.
\<close>

fun match_loop :: "nat \<Rightarrow> inserted_node \<Rightarrow> match_row list \<Rightarrow> edge list \<Rightarrow> edge list" where
  "match_loop cap node [] es = es"
| "match_loop cap node (m # ms) es =
     (if match_id m = node_id node then match_loop cap node ms es
      else if alreadyHasEdge es (node_id node) (match_id m) then match_loop cap node ms es
      else if length (es @ [make_edge node m]) \<ge> cap then es @ [make_edge node m]
      else match_loop cap node ms (es @ [make_edge node m]))"

text \<open>
  The outer loop over the inserted nodes. \<open>search\<close> is the remote procedure
  \<^verbatim>\<open>search_nodes\<close> at the fixed user, count and threshold of the run; it answers
  \<open>None\<close> when the call yields no data (\<^verbatim>\<open>similar || []\<close>).
\<close>

fun node_loop ::
  "(real list \<Rightarrow> match_row list option) \<Rightarrow> nat \<Rightarrow> inserted_node list \<Rightarrow> edge list \<Rightarrow> edge list"
where
  "node_loop search cap [] es = es"
| "node_loop search cap (node # rest) es =
     (case embedding node of
        None \<Rightarrow> node_loop search cap rest es
      | Some q \<Rightarrow>
          node_loop search cap rest
            (match_loop cap node (case search q of None \<Rightarrow> [] | Some similar \<Rightarrow> similar) es))"

definition find_related ::
  "(real list \<Rightarrow> match_row list option) \<Rightarrow> nat \<Rightarrow> inserted_node list \<Rightarrow> edge list" where
  "find_related search n_candidates insertedNodes =
     node_loop search (MAX_RELATED * n_candidates) insertedNodes []"

section \<open>The store, requests and responses\<close>

text \<open>
  The tables the three stages share, with the columns they read or write. The tables of
  the graph (\<^verbatim>\<open>nodes\<close>, \<^verbatim>\<open>edges\<close>) are reached through calls whose results the
  environment of the linking stage gives, since the store chooses the row identifiers.
\<close>

record meeting_row =
  user_id :: jsstring
  title :: jsstring
  language_code :: jsstring
  status :: meeting_status
  audio_path :: "jsstring option"

record action_item =
  task :: jsstring
  owner :: "jsstring option"
  priority :: jsstring
  deadline :: "jsstring option"

record action_item_row = action_item +
  item_meeting_id :: jsstring
  item_status :: jsstring

text \<open>
  The value of \<^verbatim>\<open>JSON.parse\<close> at the declared type of \<^verbatim>\<open>analysis\<close>. A field is
  \<open>None\<close> when it is absent or \<^verbatim>\<open>null\<close>: the code guards each use with \<^verbatim>\<open>||\<close>.
\<close>

record analysis =
  a_summary :: "jsstring option"
  a_action_items :: "action_item list option"
  a_decisions :: "jsstring list option"
  a_open_questions :: "jsstring list option"

record note_row =
  summary :: jsstring
  decisions :: "jsstring list"
  open_questions :: "jsstring list"
  raw_analysis :: analysis
  model_version :: jsstring

record store =
  meetings :: "jsstring \<rightharpoonup> meeting_row"
  transcripts :: "segment list"
  meeting_notes :: "jsstring \<rightharpoonup> note_row"
  action_items :: "action_item_row list"

text \<open>
  \<^verbatim>\<open>from("meetings").update({ status }).eq("id", meetingId)\<close>: a meeting that does not
  exist has no row to change. Every caller discards the result of this call, and the
  handlers run it inside an empty \<^verbatim>\<open>catch\<close>; the store is taken to apply it.
\<close>

definition update_status :: "store \<Rightarrow> jsstring \<Rightarrow> meeting_status \<Rightarrow> store" where
  "update_status st meetingId s =
     (case meetings st meetingId of
        None \<Rightarrow> st
      | Some m \<Rightarrow> st\<lparr>meetings := (meetings st)(meetingId \<mapsto> m\<lparr>status := s\<rparr>)\<rparr>)"

text \<open>
  A request: its method and the field \<^verbatim>\<open>meeting_id\<close> of its body, \<open>None\<close> when the
  body is not JSON or lacks the field.
\<close>

record request =
  http_method :: jsstring
  body_meeting_id :: "jsstring option"

text \<open>
  Every \<^verbatim>\<open>throw\<close> of the three handlers, with the values its message is built from.
  \<open>Invalid_JSON\<close> is the exception of \<^verbatim>\<open>JSON.parse\<close> and \<^verbatim>\<open>json()\<close>, \<open>Type_error\<close>
  the one of a property read on \<^verbatim>\<open>null\<close>.
\<close>

datatype failure =
    Not_found "jsstring option"
  | No_audio_uploaded
  | Download_failed "jsstring option"
  | File_API_start_failed nat jsstring
  | No_upload_URL
  | File_upload_failed nat jsstring
  | No_file_URI
  | Gemini_failed nat jsstring
  | Invalid_JSON
  | Insert_failed jsstring
  | Transcript_fetch_failed jsstring
  | No_transcripts_found
  | Type_error
  | Save_note_failed jsstring
  | Save_action_items_failed jsstring
  | Meeting_not_found "jsstring option"
  | Insert_nodes_failed jsstring
  | Insert_edges_failed jsstring

text \<open>
  The responses: the answer to \<^verbatim>\<open>OPTIONS\<close>, the rejection of a request without
  \<^verbatim>\<open>meeting_id\<close>, the answer of a handler's \<^verbatim>\<open>catch\<close>, and the three successes with
  their counts. The diagnostic list \<^verbatim>\<open>steps\<close> takes no part in the control flow and is
  left out.
\<close>

datatype response =
    Preflight
  | Bad_request
  | Failure failure
  | Transcribed nat
  | Analyzed nat nat nat
  | Linked nat nat

fun status_code :: "response \<Rightarrow> nat" where
  "status_code Preflight = 200"
| "status_code Bad_request = 400"
| "status_code (Failure e) = 500"
| "status_code (Transcribed n) = 200"
| "status_code (Analyzed s a d) = 200"
| "status_code (Linked n e) = 200"

definition language_name :: "jsstring \<Rightarrow> jsstring" where
  "language_name code =
     (if code = js ''my-MM'' then js ''Burmese''
      else if code = js ''en-US'' then js ''English'' else code)"

text \<open>
  The body of a response of the generation endpoint read by \<^verbatim>\<open>JSON.parse\<close>: not
  JSON, the value \<^verbatim>\<open>null\<close>, or a value with the text of the first part of its first
  candidate, \<open>None\<close> when there is none.
\<close>

datatype gen_body = Not_json | Null_body | Body "jsstring option"

text \<open>A response of the generation endpoint: \<^verbatim>\<open>res.ok\<close>, \<^verbatim>\<open>res.status\<close>, the body as text
  and as JSON.\<close>

record gen_response =
  gen_ok :: bool
  gen_status :: nat
  gen_text :: jsstring
  gen_json :: gen_body

text \<open>
  From the response to the text: a response that is not \<^verbatim>\<open>ok\<close> and a body that is not
  JSON throw, and so does the read of \<^verbatim>\<open>data.candidates\<close> on \<^verbatim>\<open>null\<close>; a missing
  text is the empty string.
\<close>

definition response_text :: "gen_response \<Rightarrow> failure + jsstring" where
  "response_text res =
     (if \<not> gen_ok res then Inl (Gemini_failed (gen_status res) (gen_text res))
      else (case gen_json res of
              Not_json \<Rightarrow> Inl Invalid_JSON
            | Null_body \<Rightarrow> Inl Type_error
            | Body None \<Rightarrow> Inr []
            | Body (Some t) \<Rightarrow> Inr t))"

section \<open>Transcription stage\<close>

datatype audio_part = InlineData jsstring jsstring | FileData jsstring jsstring

record start_response =
  start_ok :: bool
  start_status :: nat
  start_text :: jsstring
  upload_url :: "jsstring option"

text \<open>
  The response to the upload: \<open>file_info\<close> is \<open>None\<close> when the body is not JSON, else
  the fields \<^verbatim>\<open>file.uri\<close> and \<^verbatim>\<open>file.name\<close>.
\<close>

record upload_response =
  upload_ok :: bool
  upload_status :: nat
  upload_text :: jsstring
  file_info :: "(jsstring option \<times> jsstring option) option"

text \<open>
  What the collaborators of the stage answer: the audio storage, \<^verbatim>\<open>btoa\<close>, the file
  interface of the gateway (\<open>file_state name i\<close> is the state the \<open>i\<close>-th poll reads,
  \<open>None\<close> when the poll is not \<^verbatim>\<open>ok\<close>), the generation call, and the errors of the
  store's calls that the code inspects.
\<close>

record transcribe_env =
  fetch_meeting_error :: "jsstring option"
  download :: "jsstring \<Rightarrow> jsstring option + nat list"
  btoa :: "nat list \<Rightarrow> jsstring"
  start_upload :: "nat \<Rightarrow> jsstring \<Rightarrow> jsstring \<Rightarrow> start_response"
  put_upload :: "jsstring \<Rightarrow> nat list \<Rightarrow> upload_response"
  file_state :: "jsstring \<Rightarrow> nat \<Rightarrow> jsstring option"
  generate_transcript :: "audio_part \<Rightarrow> jsstring \<Rightarrow> jsstring \<Rightarrow> gen_response"
  insert_transcripts_error :: "segment list \<Rightarrow> jsstring option"

text \<open>
  The loop \<^verbatim>\<open>for (let i = 0; i < 30; i++)\<close> that waits for the state \<^verbatim>\<open>ACTIVE\<close>; the
  result is the number of polls made.
\<close>

function wait_active :: "(nat \<Rightarrow> jsstring option) \<Rightarrow> nat \<Rightarrow> nat" where
  "wait_active poll i =
     (if i < 30
      then (if poll i = Some (js ''ACTIVE'') then Suc i else wait_active poll (Suc i))
      else i)"
  by pat_completeness auto
termination
  by (relation "measure (\<lambda>(poll, i). 30 - i)") auto

text \<open>The three steps of the large file path: start, upload, wait. The result is the
  file's URI and the number of polls.\<close>

definition resumable_upload ::
  "transcribe_env \<Rightarrow> jsstring \<Rightarrow> jsstring \<Rightarrow> nat list \<Rightarrow> failure + (jsstring \<times> nat)" where
  "resumable_upload env meetingId mime audioBytes =
     (let startRes =
            start_upload env (length audioBytes) mime
              (meetingId @ (if mime = js ''audio/wav'' then js ''.wav'' else js ''.m4a''))
      in if \<not> start_ok startRes
         then Inl (File_API_start_failed (start_status startRes) (start_text startRes))
         else (case upload_url startRes of
                 None \<Rightarrow> Inl No_upload_URL
               | Some uploadUrl \<Rightarrow>
                   if uploadUrl = [] then Inl No_upload_URL
                   else (let uploadRes = put_upload env uploadUrl audioBytes
                         in if \<not> upload_ok uploadRes
                            then Inl (File_upload_failed (upload_status uploadRes)
                                       (upload_text uploadRes))
                            else (case file_info uploadRes of
                                    None \<Rightarrow> Inl Invalid_JSON
                                  | Some (None, fileName) \<Rightarrow> Inl No_file_URI
                                  | Some (Some fileUri, fileName) \<Rightarrow>
                                      if fileUri = [] then Inl No_file_URI
                                      else (case fileName of
                                              None \<Rightarrow> Inr (fileUri, 0)
                                            | Some name \<Rightarrow>
                                                if name = [] then Inr (fileUri, 0)
                                                else Inr (fileUri,
                                                       wait_active (file_state env name) 0))))))"

text \<open>
  The choice of the transfer, \<^verbatim>\<open>audioBytes.length > 4 * 1024 * 1024\<close>, and the part of
  the generation request it leads to (\<^verbatim>\<open>fileUri ? fileData : inlineData\<close>).
\<close>

definition transfer_audio ::
  "transcribe_env \<Rightarrow> jsstring \<Rightarrow> jsstring \<Rightarrow> nat list \<Rightarrow> failure + audio_part" where
  "transfer_audio env meetingId mime audioBytes =
     (if length audioBytes > 4 * 1024 * 1024
      then (case resumable_upload env meetingId mime audioBytes of
              Inl e \<Rightarrow> Inl e
            | Inr (fileUri, polls) \<Rightarrow> Inr (FileData mime fileUri))
      else Inr (InlineData mime (btoa env audioBytes)))"

text \<open>The body of the handler's \<^verbatim>\<open>try\<close>: the store it leaves and what it raised or
  returned (the number of segments).\<close>

definition transcribe_body ::
  "transcribe_env \<Rightarrow> store \<Rightarrow> jsstring \<Rightarrow> store \<times> (failure + nat)" where
  "transcribe_body env st meetingId =
     (case (fetch_meeting_error env, meetings st meetingId) of
        (Some err, _) \<Rightarrow> (st, Inl (Not_found (Some err)))
      | (None, None) \<Rightarrow> (st, Inl (Not_found None))
      | (None, Some meeting) \<Rightarrow>
          (case audio_path meeting of
             None \<Rightarrow> (st, Inl No_audio_uploaded)
           | Some path \<Rightarrow>
               if path = [] then (st, Inl No_audio_uploaded)
               else (case download env path of
                       Inl err \<Rightarrow> (st, Inl (Download_failed err))
                     | Inr audioBytes \<Rightarrow>
                         (case transfer_audio env meetingId
                                 (if suffix (js ''.wav'') path then js ''audio/wav''
                                  else js ''audio/mp4'')
                                 audioBytes of
                            Inl e \<Rightarrow> (st, Inl e)
                          | Inr audioPart \<Rightarrow>
                              (case response_text
                                      (generate_transcript env audioPart
                                         (language_name (language_code meeting))
                                         (language_code meeting)) of
                                 Inl e \<Rightarrow> (st, Inl e)
                               | Inr transcript \<Rightarrow>
                                   (let segments =
                                          build_segments meetingId (language_code meeting)
                                            transcript
                                    in case insert_transcripts_error env segments of
                                         Some err \<Rightarrow> (st, Inl (Insert_failed err))
                                       | None \<Rightarrow>
                                           (update_status
                                              (st\<lparr>transcripts := transcripts st @ segments\<rparr>)
                                              meetingId Analyzing,
                                            Inr (length segments))))))))"

text \<open>The handler's \<^verbatim>\<open>catch\<close>, entered with the store as the exception left it.\<close>

definition transcribe_failed :: "store \<Rightarrow> jsstring \<Rightarrow> failure \<Rightarrow> response \<times> store" where
  "transcribe_failed st meetingId e = (Failure e, update_status st meetingId Failed)"

definition transcribe_meeting :: "transcribe_env \<Rightarrow> store \<Rightarrow> request \<Rightarrow> response \<times> store" where
  "transcribe_meeting env st req =
     (if http_method req = js ''OPTIONS'' then (Preflight, st)
      else (case body_meeting_id req of
              None \<Rightarrow> (Bad_request, st)
            | Some meetingId \<Rightarrow>
                if meetingId = [] then (Bad_request, st)
                else (case transcribe_body env st meetingId of
                        (st', Inl e) \<Rightarrow> transcribe_failed st' meetingId e
                      | (st', Inr n) \<Rightarrow> (Transcribed n, st'))))"

section \<open>Analysis stage\<close>

text \<open>
  \<^verbatim>\<open>rawText.replace(/```json\s*/gi, "")\<close> and \<^verbatim>\<open>.replace(/```\s*/g, "")\<close>: every match
  goes, the scan going on behind it.
\<close>

function strip_json_fences :: "jsstring \<Rightarrow> jsstring" where
  "strip_json_fences [] = []"
| "strip_json_fences (c # cs) =
     (if take 3 (c # cs) = js ''```'' \<and> ci_word ''JSON'' (take 4 (drop 3 (c # cs)))
      then strip_json_fences (dropWhile is_space (drop 7 (c # cs)))
      else c # strip_json_fences cs)"
  by pat_completeness auto
termination
  by (relation "measure length")
    (auto simp: le_imp_less_Suc order.trans [OF length_dropWhile_le])

function strip_fences :: "jsstring \<Rightarrow> jsstring" where
  "strip_fences [] = []"
| "strip_fences (c # cs) =
     (if take 3 (c # cs) = js ''```''
      then strip_fences (dropWhile is_space (drop 3 (c # cs)))
      else c # strip_fences cs)"
  by pat_completeness auto
termination
  by (relation "measure length")
    (auto simp: le_imp_less_Suc order.trans [OF length_dropWhile_le])

definition json_text :: "jsstring \<Rightarrow> jsstring" where
  "json_text rawText = trim (strip_fences (strip_json_fences rawText))"

text \<open>
  What \<^verbatim>\<open>JSON.parse\<close> does with a text: it throws, or it returns \<^verbatim>\<open>null\<close>, or a
  value whose fields the code reads (each field absent for a value that is no object).
\<close>

datatype json_result = Syntax_error | Json_null | Json_value analysis

record analyze_env =
  fetch_transcripts_error :: "jsstring option"
  generate_analysis :: "jsstring \<Rightarrow> jsstring \<Rightarrow> gen_response"
  JSON_parse :: "jsstring \<Rightarrow> json_result"
  upsert_note_error :: "note_row \<Rightarrow> jsstring option"
  insert_action_items_error :: "action_item_row list \<Rightarrow> jsstring option"

text \<open>
  The \<^verbatim>\<open>try\<close> around \<^verbatim>\<open>JSON.parse(jsonStr)\<close> with its fallback; \<open>None\<close> is the
  value \<^verbatim>\<open>null\<close>.
\<close>

definition parse_analysis :: "analyze_env \<Rightarrow> jsstring \<Rightarrow> analysis option" where
  "parse_analysis env rawText =
     (case JSON_parse env (json_text rawText) of
        Json_value a \<Rightarrow> Some a
      | Json_null \<Rightarrow> None
      | Syntax_error \<Rightarrow>
          Some \<lparr>a_summary = Some (take 500 rawText), a_action_items = Some [],
                a_decisions = Some [], a_open_questions = Some []\<rparr>)"

text \<open>\<^verbatim>\<open>x || d\<close> on an optional string and on an optional array.\<close>

definition or_string :: "jsstring option \<Rightarrow> jsstring \<Rightarrow> jsstring" where
  "or_string x d = (case x of None \<Rightarrow> d | Some s \<Rightarrow> if s = [] then d else s)"

definition or_empty :: "'a list option \<Rightarrow> 'a list" where
  "or_empty x = (case x of None \<Rightarrow> [] | Some xs \<Rightarrow> xs)"

text \<open>The row given to the upsert of \<^verbatim>\<open>meeting_notes\<close>.\<close>

definition note_of :: "analysis \<Rightarrow> note_row" where
  "note_of a =
     \<lparr>summary = or_string (a_summary a) (js ''No summary generated''),
      decisions = or_empty (a_decisions a),
      open_questions = or_empty (a_open_questions a),
      raw_analysis = a,
      model_version = js ''gemini-2.5-flash''\<rparr>"

definition action_row_of :: "jsstring \<Rightarrow> action_item \<Rightarrow> action_item_row" where
  "action_row_of meetingId item =
     \<lparr>task = task item, owner = owner item,
      priority =
        (if priority item \<in> set [js ''high'', js ''medium'', js ''low''] then priority item
         else js ''medium''),
      deadline = (case deadline item of None \<Rightarrow> None | Some d \<Rightarrow> if d = [] then None else Some d),
      item_meeting_id = meetingId, item_status = js ''open''\<rparr>"

definition transcript_line :: "segment \<Rightarrow> jsstring" where
  "transcript_line t =
     (case speaker_label t of
        None \<Rightarrow> seg_text t
      | Some l \<Rightarrow> if l = [] then seg_text t else l @ js '': '' @ seg_text t)"

text \<open>The segments of a meeting in the order of \<^verbatim>\<open>start_seconds\<close>.\<close>

definition meeting_transcripts :: "store \<Rightarrow> jsstring \<Rightarrow> segment list" where
  "meeting_transcripts st meetingId =
     sort_key start_seconds (filter (\<lambda>t. seg_meeting_id t = meetingId) (transcripts st))"

definition analyze_body ::
  "analyze_env \<Rightarrow> store \<Rightarrow> jsstring \<Rightarrow> store \<times> (failure + nat \<times> nat \<times> nat)" where
  "analyze_body env st meetingId =
     (case fetch_transcripts_error env of
        Some err \<Rightarrow> (st, Inl (Transcript_fetch_failed err))
      | None \<Rightarrow>
          (case meeting_transcripts st meetingId of
             [] \<Rightarrow> (st, Inl No_transcripts_found)
           | t0 # ts \<Rightarrow>
               (case response_text
                       (generate_analysis env
                          (language_name (if seg_language t0 = [] then js ''en-US''
                                          else seg_language t0))
                          (join [10] (map transcript_line (t0 # ts)))) of
                  Inl e \<Rightarrow> (st, Inl e)
                | Inr rawText \<Rightarrow>
                    (case parse_analysis env rawText of
                       None \<Rightarrow> (st, Inl Type_error)
                     | Some a \<Rightarrow>
                         (case upsert_note_error env (note_of a) of
                            Some err \<Rightarrow> (st, Inl (Save_note_failed err))
                          | None \<Rightarrow>
                              (let st1 = st\<lparr>meeting_notes :=
                                              (meeting_notes st)(meetingId \<mapsto> note_of a)\<rparr>;
                                   actionItems =
                                     map (action_row_of meetingId) (or_empty (a_action_items a));
                                   counts =
                                     (length (or_string (a_summary a) []), length actionItems,
                                      length (or_empty (a_decisions a)))
                               in if length actionItems > 0
                                  then (case insert_action_items_error env actionItems of
                                          Some err \<Rightarrow> (st1, Inl (Save_action_items_failed err))
                                        | None \<Rightarrow>
                                            (update_status
                                               (st1\<lparr>action_items :=
                                                       action_items st1 @ actionItems\<rparr>)
                                               meetingId Linking,
                                             Inr counts))
                                  else (update_status st1 meetingId Linking, Inr counts)))))))"

definition analyze_failed :: "store \<Rightarrow> jsstring \<Rightarrow> failure \<Rightarrow> response \<times> store" where
  "analyze_failed st meetingId e = (Failure e, update_status st meetingId Failed)"

definition analyze_meeting :: "analyze_env \<Rightarrow> store \<Rightarrow> request \<Rightarrow> response \<times> store" where
  "analyze_meeting env st req =
     (if http_method req = js ''OPTIONS'' then (Preflight, st)
      else (case body_meeting_id req of
              None \<Rightarrow> (Bad_request, st)
            | Some meetingId \<Rightarrow>
                if meetingId = [] then (Bad_request, st)
                else (case analyze_body env st meetingId of
                        (st', Inl e) \<Rightarrow> analyze_failed st' meetingId e
                      | (st', Inr (s, a, d)) \<Rightarrow> (Analyzed s a d, st'))))"

section \<open>Linking stage\<close>

record candidate =
  c_user_id :: jsstring
  c_node_type :: node_type
  c_title :: jsstring
  c_content :: jsstring
  c_embedding :: "real list option"
  c_source_meeting_id :: jsstring

text \<open>
  The collaborators of the stage: the embedding call of the gateway (\<open>None\<close> on any
  failure), the insert of the nodes with the rows and the error it returns, the remote
  procedure \<^verbatim>\<open>search_nodes\<close>, and the error of the insert of the edges.
\<close>

record link_env =
  fetch_error :: "jsstring option"
  embed_content :: "jsstring \<Rightarrow> real list option"
  insert_nodes :: "candidate list \<Rightarrow> inserted_node list option \<times> jsstring option"
  search_nodes :: "real list \<Rightarrow> jsstring \<Rightarrow> nat \<Rightarrow> real \<Rightarrow> match_row list option"
  insert_edges_error :: "edge list \<Rightarrow> jsstring option"

definition embed :: "link_env \<Rightarrow> jsstring \<Rightarrow> real list option" where
  "embed env text_in = embed_content env (take 4000 text_in)"

definition short_title :: "jsstring \<Rightarrow> jsstring" where
  "short_title s = (if length s > 80 then take 80 s @ js ''...'' else s)"

definition action_text :: "action_item_row \<Rightarrow> jsstring" where
  "action_text action =
     task action @ js '' (owner: '' @ or_string (owner action) (js ''unassigned'')
       @ js '', priority: '' @ priority action @ js '')''"

text \<open>The list \<^verbatim>\<open>nodesToInsert\<close>: the meeting, its summary, its decisions, its actions.\<close>

definition build_candidates ::
  "link_env \<Rightarrow> jsstring \<Rightarrow> meeting_row \<Rightarrow> note_row option \<Rightarrow> action_item_row list \<Rightarrow>
     segment list \<Rightarrow> candidate list" where
  "build_candidates env meetingId meeting note actions segs =
     (let fullText = join (js '' '') (map seg_text segs);
          note_summary = (case note of None \<Rightarrow> [] | Some n \<Rightarrow> summary n);
          meetingContent =
            (if note_summary \<noteq> [] then note_summary @ [10, 10] @ take 2000 fullText
             else take 3000 fullText)
      in [\<lparr>c_user_id = user_id meeting, c_node_type = Meeting, c_title = title meeting,
            c_content = meetingContent,
            c_embedding = embed env (title meeting @ js '': '' @ meetingContent),
            c_source_meeting_id = meetingId\<rparr>]
         @ (if note_summary \<noteq> []
            then [\<lparr>c_user_id = user_id meeting, c_node_type = Note,
                   c_title = js ''Summary: '' @ title meeting, c_content = note_summary,
                   c_embedding = embed env note_summary, c_source_meeting_id = meetingId\<rparr>]
            else [])
         @ map (\<lambda>dec. \<lparr>c_user_id = user_id meeting, c_node_type = Decision,
                        c_title = short_title dec, c_content = dec,
                        c_embedding = embed env dec, c_source_meeting_id = meetingId\<rparr>)
             (case note of None \<Rightarrow> [] | Some n \<Rightarrow> decisions n)
         @ map (\<lambda>action. \<lparr>c_user_id = user_id meeting, c_node_type = Action,
                           c_title = short_title (task action),
                           c_content = action_text action,
                           c_embedding = embed env (action_text action),
                           c_source_meeting_id = meetingId\<rparr>)
             actions)"

text \<open>
  The body of the handler's \<^verbatim>\<open>try\<close> up to the update of the status: what it raised,
  or the numbers of nodes and edges. The removal of the meeting's old nodes and edges
  and the two inserts act on the tables of the graph only, and no error of the removal
  is inspected.
\<close>

definition link_body :: "link_env \<Rightarrow> store \<Rightarrow> jsstring \<Rightarrow> failure + nat \<times> nat" where
  "link_body env st meetingId =
     (case (fetch_error env, meetings st meetingId) of
        (Some err, _) \<Rightarrow> Inl (Meeting_not_found (Some err))
      | (None, None) \<Rightarrow> Inl (Meeting_not_found None)
      | (None, Some meeting) \<Rightarrow>
          (let nodesToInsert =
                 build_candidates env meetingId meeting (meeting_notes st meetingId)
                   (filter (\<lambda>a. item_meeting_id a = meetingId) (action_items st))
                   (meeting_transcripts st meetingId)
           in case insert_nodes env nodesToInsert of
                (data, Some err) \<Rightarrow> Inl (Insert_nodes_failed err)
              | (data, None) \<Rightarrow>
                  (let insertedNodes = or_empty data;
                       edgesToInsert =
                         find_related
                           (\<lambda>q. search_nodes env q (user_id meeting) (MAX_RELATED + 5)
                                  SIMILARITY_THRESHOLD)
                           (length nodesToInsert) insertedNodes
                   in if length edgesToInsert > 0
                      then (case insert_edges_error env edgesToInsert of
                              Some err \<Rightarrow> Inl (Insert_edges_failed err)
                            | None \<Rightarrow> Inr (length insertedNodes, length edgesToInsert))
                      else Inr (length insertedNodes, length edgesToInsert))))"

text \<open>
  The handler's \<^verbatim>\<open>catch\<close>: \<^verbatim>\<open>"Setting status to done (linking is best-effort)"\<close>,
  and the response with status 500.
\<close>

definition link_failed :: "store \<Rightarrow> jsstring \<Rightarrow> failure \<Rightarrow> response \<times> store" where
  "link_failed st meetingId e = (Failure e, update_status st meetingId Done)"

definition link_meeting :: "link_env \<Rightarrow> store \<Rightarrow> request \<Rightarrow> response \<times> store" where
  "link_meeting env st req =
     (if http_method req = js ''OPTIONS'' then (Preflight, st)
      else (case body_meeting_id req of
              None \<Rightarrow> (Bad_request, st)
            | Some meetingId \<Rightarrow>
                if meetingId = [] then (Bad_request, st)
                else (case link_body env st meetingId of
                        Inl e \<Rightarrow> link_failed st meetingId e
                      | Inr (n, k) \<Rightarrow> (Linked n k, update_status st meetingId Done))))"

text \<open>The edges of a list that join the unordered pair \<open>{a, b}\<close>.\<close>

definition connects :: "jsstring \<Rightarrow> jsstring \<Rightarrow> edge \<Rightarrow> bool" where
  "connects a b e = ((from_node e = a \<and> to_node e = b) \<or> (from_node e = b \<and> to_node e = a))"

definition pair_unique :: "edge list \<Rightarrow> bool" where
  "pair_unique es = (\<forall>a b. length (filter (connects a b) es) \<le> 1)"

section \<open>Inputs for the instances\<close>

text \<open>A store with one meeting \<^verbatim>\<open>m1\<close> in a given status and with a given audio path.\<close>

definition example_meeting :: "meeting_status \<Rightarrow> jsstring option \<Rightarrow> meeting_row" where
  "example_meeting s path =
     \<lparr>user_id = js ''u1'', title = js ''Standup'', language_code = js ''en-US'',
      status = s, audio_path = path\<rparr>"

definition example_store :: "meeting_status \<Rightarrow> jsstring option \<Rightarrow> store" where
  "example_store s path =
     \<lparr>meetings = [js ''m1'' \<mapsto> example_meeting s path], transcripts = [],
      meeting_notes = Map.empty, action_items = []\<rparr>"

definition example_request :: request where
  "example_request = \<lparr>http_method = js ''POST'', body_meeting_id = Some (js ''m1'')\<rparr>"

text \<open>The store after the transcription of \<^verbatim>\<open>m1\<close> gave one segment.\<close>

definition transcribed_store :: store where
  "transcribed_store =
     (example_store Analyzing (Some (js ''a.m4a'')))
       \<lparr>transcripts :=
          [\<lparr>seg_meeting_id = js ''m1'', speaker_label = Some (js ''Speaker 1''),
            seg_text = js ''Hello'', start_seconds = 0, end_seconds = 0, confidence = None,
            seg_language = js ''en-US''\<rparr>]\<rparr>"

text \<open>A linking run whose insert of the nodes is rejected by the store.\<close>

definition rejecting_link_env :: link_env where
  "rejecting_link_env =
     \<lparr>fetch_error = None, embed_content = (\<lambda>t. None),
      insert_nodes = (\<lambda>cs. (None, Some (js ''rejected''))),
      search_nodes = (\<lambda>q u k t. None), insert_edges_error = (\<lambda>es. None)\<rparr>"

text \<open>A gateway that answers every transcription request with a given text, and a
  store that accepts the segments.\<close>

definition answering_transcribe_env :: "jsstring \<Rightarrow> transcribe_env" where
  "answering_transcribe_env t =
     \<lparr>fetch_meeting_error = None, download = (\<lambda>p. Inr [0, 1, 2]), btoa = (\<lambda>bs. js ''AAEC''),
      start_upload = (\<lambda>n m d. \<lparr>start_ok = False, start_status = 503, start_text = [],
                                 upload_url = None\<rparr>),
      put_upload = (\<lambda>u bs. \<lparr>upload_ok = False, upload_status = 503, upload_text = [],
                               file_info = None\<rparr>),
      file_state = (\<lambda>n i. None),
      generate_transcript = (\<lambda>p l c. \<lparr>gen_ok = True, gen_status = 200, gen_text = [],
                                         gen_json = Body (Some t)\<rparr>),
      insert_transcripts_error = (\<lambda>segs. None)\<rparr>"

text \<open>A gateway that answers every analysis request with a given text that
  \<^verbatim>\<open>JSON.parse\<close> rejects, and a store that accepts the note.\<close>

definition answering_analyze_env :: "jsstring \<Rightarrow> analyze_env" where
  "answering_analyze_env t =
     \<lparr>fetch_transcripts_error = None,
      generate_analysis = (\<lambda>l f. \<lparr>gen_ok = True, gen_status = 200, gen_text = [],
                                     gen_json = Body (Some t)\<rparr>),
      JSON_parse = (\<lambda>s. Syntax_error),
      upsert_note_error = (\<lambda>n. None),
      insert_action_items_error = (\<lambda>items. None)\<rparr>"

section \<open>Properties of the linking loop\<close>

lemma alreadyHasEdge_filter:
  "alreadyHasEdge es n m = (filter (connects n m) es \<noteq> [])"
  by (auto simp: alreadyHasEdge_def connects_def list_ex_iff filter_empty_conv)

lemma connects_make_edge:
  "connects a b (make_edge node m) \<Longrightarrow> connects a b = connects (node_id node) (match_id m)"
  by (auto simp: connects_def make_edge_def fun_eq_iff)

lemma pair_unique_snoc:
  assumes "pair_unique es" "\<not> alreadyHasEdge es (node_id node) (match_id m)"
  shows "pair_unique (es @ [make_edge node m])"
  unfolding pair_unique_def
proof (intro allI)
  fix a b
  show "length (filter (connects a b) (es @ [make_edge node m])) \<le> 1"
  proof (cases "connects a b (make_edge node m)")
    case True
    then have "connects a b = connects (node_id node) (match_id m)"
      by (rule connects_make_edge)
    with assms(2) have "filter (connects a b) es = []"
      by (simp add: alreadyHasEdge_filter)
    with True show ?thesis by simp
  next
    case False
    with assms(1) show ?thesis by (simp add: pair_unique_def)
  qed
qed

lemma pair_unique_match_loop:
  "pair_unique es \<Longrightarrow> pair_unique (match_loop cap node ms es)"
  by (induction cap node ms es rule: match_loop.induct) (simp_all add: pair_unique_snoc)

lemma pair_unique_node_loop:
  "pair_unique es \<Longrightarrow> pair_unique (node_loop search cap ns es)"
  by (induction ns arbitrary: es) (simp_all add: pair_unique_match_loop split: option.splits)

text \<open>
  C2. Whatever nodes were inserted and whatever the searches return, the edges
  accumulated by one run hold at most one edge between any two nodes \<open>a\<close> and \<open>b\<close>,
  counting both directions.
\<close>

theorem find_related_pair_unique:
  "length (filter (\<lambda>e. (from_node e = a \<and> to_node e = b) \<or> (from_node e = b \<and> to_node e = a))
     (find_related search n_candidates insertedNodes)) \<le> 1"
proof -
  have "pair_unique []"
    by (simp add: pair_unique_def)
  then have "pair_unique (find_related search n_candidates insertedNodes)"
    unfolding find_related_def by (rule pair_unique_node_loop)
  then have "length (filter (connects a b) (find_related search n_candidates insertedNodes)) \<le> 1"
    by (simp add: pair_unique_def)
  then show ?thesis
    by (simp add: connects_def [abs_def])
qed

text \<open>
  C3. The cap is checked after each appended edge, and the \<^verbatim>\<open>break\<close> leaves the loop
  over the matches of one node only: the next node appends one more edge. Three
  candidate nodes with nine neighbours each end with sixteen edges, one above
  \<open>MAX_RELATED * 3\<close>.
\<close>

theorem link_cap_exceeded:
  "length (find_related
      (\<lambda>q. Some (map (\<lambda>i. \<lparr>match_id = [i], match_node_type = Note, similarity = 7 / 10\<rparr>)
                   [10..<19]))
      3
      [\<lparr>node_id = [1], node_type = Meeting, embedding = Some [1]\<rparr>,
       \<lparr>node_id = [2], node_type = Note, embedding = Some [2]\<rparr>,
       \<lparr>node_id = [3], node_type = Decision, embedding = Some [3]\<rparr>]) = 16
   \<and> MAX_RELATED * 3 = 15"
  by (simp add: find_related_def MAX_RELATED_def alreadyHasEdge_def make_edge_def upt_rec)

lemma match_loop_provenance:
  "e \<in> set (match_loop cap node ms es) \<Longrightarrow> e \<in> set es \<or> (\<exists>m \<in> set ms. e = make_edge node m)"
  by (induction cap node ms es rule: match_loop.induct) (auto split: if_splits)

lemma node_loop_provenance:
  "e \<in> set (node_loop search cap ns es) \<Longrightarrow>
     e \<in> set es \<or> (\<exists>node \<in> set ns. \<exists>q similar. embedding node = Some q \<and> search q = Some similar
        \<and> (\<exists>m \<in> set similar. e = make_edge node m))"
proof (induction ns arbitrary: es)
  case Nil
  then show ?case by simp
next
  case (Cons node rest)
  show ?case
  proof (cases "embedding node")
    case None
    with Cons show ?thesis by fastforce
  next
    case (Some q)
    with Cons.prems have
      "e \<in> set (node_loop search cap rest
          (match_loop cap node (case search q of None \<Rightarrow> [] | Some similar \<Rightarrow> similar) es))"
      by simp
    from Cons.IH [OF this] show ?thesis
    proof
      assume "e \<in> set (match_loop cap node (case search q of None \<Rightarrow> [] | Some similar \<Rightarrow> similar) es)"
      from match_loop_provenance [OF this] Some show ?thesis
        by (cases "search q") auto
    next
      assume "\<exists>node \<in> set rest. \<exists>q similar. embedding node = Some q \<and> search q = Some similar
        \<and> (\<exists>m \<in> set similar. e = make_edge node m)"
      then show ?thesis by auto
    qed
  qed
qed

section \<open>Properties of the binary64 rounding\<close>

lemma binade_bounds:
  assumes "0 < x"
  shows "pow2 (binade x) \<le> x \<and> x < pow2 (binade x + 1)"
proof (cases "1 \<le> x")
  case True
  define b where "b = bitlen \<lfloor>x\<rfloor>"
  have pos: "0 < \<lfloor>x\<rfloor>"
    using True by simp
  from bitlen_bounds [OF pos] have lo: "2 ^ nat (b - 1) \<le> \<lfloor>x\<rfloor>" and hi: "\<lfloor>x\<rfloor> < 2 ^ nat b"
    by (simp_all add: b_def)
  have b1: "1 \<le> b"
    using pos by (simp add: b_def bitlen_alt_def)
  have "real_of_int (2 ^ nat (b - 1)) \<le> real_of_int \<lfloor>x\<rfloor>"
    using lo by (simp only: of_int_le_iff)
  then have l: "2 ^ nat (b - 1) \<le> x"
    by (simp add: le_floor_iff)
  have "\<lfloor>x\<rfloor> + 1 \<le> 2 ^ nat b"
    using hi by simp
  then have "real_of_int (\<lfloor>x\<rfloor> + 1) \<le> real_of_int (2 ^ nat b)"
    by (simp only: of_int_le_iff)
  then have h: "x < 2 ^ nat b"
    by (simp, linarith)
  show ?thesis
    using True b1 l h by (simp add: binade_def pow2_def b_def)
next
  case False
  define m where "m = \<lceil>1 / x\<rceil> - 1"
  define k where "k = bitlen m"
  have inv: "1 < 1 / x"
    using assms False by simp
  then have pos: "0 < m"
    by (simp add: m_def less_ceiling_iff)
  from bitlen_bounds [OF pos] have lo: "2 ^ nat (k - 1) \<le> m" and hi: "m < 2 ^ nat k"
    by (simp_all add: k_def)
  have k1: "1 \<le> k"
    using pos by (simp add: k_def bitlen_alt_def)
  have "real_of_int m < 1 / x"
    unfolding m_def by linarith
  moreover have "real_of_int (2 ^ nat (k - 1)) \<le> real_of_int m"
    using lo by (simp only: of_int_le_iff)
  then have "(2::real) ^ nat (k - 1) \<le> real_of_int m"
    by simp
  ultimately have "2 ^ nat (k - 1) < 1 / x"
    by linarith
  then have h: "x < 1 / 2 ^ nat (k - 1)"
    using assms by (simp add: field_simps)
  have "m + 1 \<le> 2 ^ nat k"
    using hi by simp
  then have "real_of_int (m + 1) \<le> real_of_int (2 ^ nat k)"
    by (simp only: of_int_le_iff)
  then have "real_of_int m + 1 \<le> (2::real) ^ nat k"
    by simp
  moreover have "1 / x \<le> real_of_int m + 1"
    unfolding m_def by simp
  ultimately have "1 / x \<le> 2 ^ nat k"
    by linarith
  then have l: "1 / 2 ^ nat k \<le> x"
    using assms by (simp add: field_simps)
  have e: "pow2 (- k + 1) = 1 / 2 ^ nat (k - 1)"
    using k1 by (cases "k = 1") (simp_all add: pow2_def)
  have "pow2 (- k) = 1 / 2 ^ nat k"
    using k1 by (simp add: pow2_def)
  with e l h False show ?thesis
    by (simp add: binade_def m_def [symmetric] k_def [symmetric])
qed

lemma bitlen_numeral_eval:
  "bitlen 1 = 1"
  "bitlen (numeral (Num.Bit0 n)) = bitlen (numeral n) + 1"
  "bitlen (numeral (Num.Bit1 n)) = bitlen (numeral n) + 1"
proof -
  show "bitlen 1 = 1"
    by (subst compute_bitlen) simp
  show "bitlen (numeral (Num.Bit0 n)) = bitlen (numeral n) + 1"
    by (subst compute_bitlen) simp
  show "bitlen (numeral (Num.Bit1 n)) = bitlen (numeral n) + 1"
    by (subst compute_bitlen) simp
qed

lemma round_even_error: "\<bar>real_of_int (round_even q) - q\<bar> \<le> 1 / 2"
proof -
  have f: "q = real_of_int \<lfloor>q\<rfloor> + frac q"
    by (simp add: frac_def)
  have "0 \<le> frac q" "frac q < 1"
    by (simp_all add: frac_lt_1)
  then show ?thesis
    unfolding round_even_def by (subst (2 4 6 8) f) (auto simp: abs_le_iff)
qed

lemma pow2_pos: "0 < pow2 e"
  by (simp add: pow2_def)

lemma pow2_powr: "pow2 e = 2 powr real_of_int e"
  by (simp add: pow2_def powr_real_of_int inverse_eq_divide)

lemma pow2_mono: "e \<le> e' \<Longrightarrow> pow2 e \<le> pow2 e'"
  by (simp add: pow2_powr)

lemma binade_upper:
  assumes "0 < x" "x < 2 ^ n" "0 < n"
  shows "binade x \<le> int n - 1"
proof (cases "1 \<le> x")
  case True
  have "\<lfloor>x\<rfloor> < 2 ^ n"
    using assms(2) by (simp add: floor_less_iff)
  then have "bitlen \<lfloor>x\<rfloor> \<le> int n"
    by (simp add: bitlen_le_iff_power)
  with True show ?thesis by (simp add: binade_def)
next
  case False
  have "0 \<le> bitlen (\<lceil>1 / x\<rceil> - 1)"
    by (rule bitlen_nonneg)
  then show ?thesis
    using False assms(3) by (simp add: binade_def)
qed

lemma binary64_error:
  assumes "\<bar>x\<bar> < 2 ^ n" "0 < n"
  shows "\<bar>binary64 x - x\<bar> \<le> pow2 (int n - 53) / 2"
proof (cases "x = 0")
  case True
  then show ?thesis by (simp add: binary64_def less_imp_le [OF pow2_pos])
next
  case False
  define u where "u = pow2 (max (binade \<bar>x\<bar>) (- 1022) - 52)"
  have u: "0 < u" by (simp add: u_def pow2_pos)
  have "binade \<bar>x\<bar> \<le> int n - 1"
    using False assms by (intro binade_upper) auto
  then have "max (binade \<bar>x\<bar>) (- 1022) - 52 \<le> int n - 53"
    using assms(2) by simp
  then have le: "u \<le> pow2 (int n - 53)"
    unfolding u_def by (rule pow2_mono)
  have "binary64 x - x = (real_of_int (round_even (x / u)) - x / u) * u"
    using False u by (simp add: binary64_def u_def field_simps)
  then have "\<bar>binary64 x - x\<bar> = \<bar>real_of_int (round_even (x / u)) - x / u\<bar> * u"
    using u by (simp add: abs_mult)
  also have "\<dots> \<le> 1 / 2 * u"
    using u round_even_error [of "x / u"] by (intro mult_right_mono) auto
  also have "\<dots> \<le> pow2 (int n - 53) / 2"
    using le by simp
  finally show ?thesis .
qed

lemma binary64_error_128: "\<bar>x\<bar> < 128 \<Longrightarrow> \<bar>binary64 x - x\<bar> \<le> 1 / 2 ^ 47"
  using binary64_error [of x 7] by (simp add: pow2_def)

lemma binary64_error_2: "\<bar>x\<bar> < 2 \<Longrightarrow> \<bar>binary64 x - x\<bar> \<le> 1 / 2 ^ 53"
  using binary64_error [of x 1] by (simp add: pow2_def)

lemma strength_bound:
  assumes "\<bar>s\<bar> \<le> 1"
  shows "\<bar>binary64 (real_of_int (Math_round (binary64 (s * 100))) / 100) - s\<bar> \<le> 1 / 200 + 1 / 2 ^ 52"
proof -
  define p where "p = binary64 (s * 100)"
  define k where "k = Math_round p"
  define \<delta> :: real where "\<delta> = 1 / 2 ^ 47"
  have \<delta>: "0 < \<delta>" "\<delta> < 1 / 4" "1 / 2 ^ 53 = \<delta> / 64" "1 / 2 ^ 52 = \<delta> / 32"
    by (simp_all add: \<delta>_def)
  have "\<bar>s * 100\<bar> < 128"
    using assms by (simp add: abs_mult)
  then have e1: "\<bar>p - s * 100\<bar> \<le> \<delta>"
    unfolding p_def \<delta>_def by (rule binary64_error_128)
  have e2: "\<bar>real_of_int k - p\<bar> \<le> 1 / 2"
    unfolding k_def Math_round_def by linarith
  have "\<bar>real_of_int k\<bar> < 101"
    using e1 e2 assms \<delta>(2) by linarith
  then have "\<bar>k\<bar> < 101" by linarith
  then have "\<bar>real_of_int k\<bar> \<le> 100" by linarith
  then have "\<bar>real_of_int k / 100\<bar> < 2" by simp
  then have "\<bar>binary64 (real_of_int k / 100) - real_of_int k / 100\<bar> \<le> 1 / 2 ^ 53"
    by (rule binary64_error_2)
  then have e3: "\<bar>binary64 (real_of_int k / 100) - real_of_int k / 100\<bar> \<le> \<delta> / 64"
    by (simp only: \<delta>(3))
  have "binary64 (real_of_int (Math_round (binary64 (s * 100))) / 100) = binary64 (real_of_int k / 100)"
    by (simp add: k_def p_def)
  moreover have "\<bar>binary64 (real_of_int k / 100) - s\<bar> \<le> 1 / 200 + \<delta> / 32"
    using e1 e2 e3 \<delta>(1) by linarith
  ultimately show ?thesis
    by (simp only: \<delta>(4))
qed

lemma strength_exact:
  assumes "\<bar>s\<bar> \<le> 1" "\<bar>frac (s * 100) - 1 / 2\<bar> > 1 / 2 ^ 47"
  shows "binary64 (real_of_int (Math_round (binary64 (s * 100))) / 100) = binary64 (real_of_int (round (s * 100)) / 100)"
proof -
  define p where "p = binary64 (s * 100)"
  define n where "n = \<lfloor>s * 100\<rfloor>"
  define f where "f = frac (s * 100)"
  define \<delta> :: real where "\<delta> = 1 / 2 ^ 47"
  have \<delta>: "0 < \<delta>" "\<delta> < 1 / 4"
    by (simp_all add: \<delta>_def)
  have s: "s * 100 = real_of_int n + f"
    by (simp add: n_def f_def frac_def)
  have f: "0 \<le> f" "f < 1"
    by (simp_all add: f_def frac_lt_1)
  have "\<bar>s * 100\<bar> < 128"
    using assms(1) by (simp add: abs_mult)
  then have e1: "\<bar>p - s * 100\<bar> \<le> \<delta>"
    unfolding p_def \<delta>_def by (rule binary64_error_128)
  have d: "\<bar>f - 1 / 2\<bar> > \<delta>"
    using assms(2) by (simp add: f_def \<delta>_def)
  have "\<lfloor>p + 1 / 2\<rfloor> = \<lfloor>s * 100 + 1 / 2\<rfloor>"
  proof (cases "f < 1 / 2")
    case True
    have "real_of_int n \<le> p + 1 / 2" "p + 1 / 2 < real_of_int n + 1"
      using e1 d f True s \<delta> by linarith+
    then have "\<lfloor>p + 1 / 2\<rfloor> = n"
      by (intro floor_unique)
    moreover have "real_of_int n \<le> s * 100 + 1 / 2" "s * 100 + 1 / 2 < real_of_int n + 1"
      using f True s by linarith+
    then have "\<lfloor>s * 100 + 1 / 2\<rfloor> = n"
      by (intro floor_unique)
    ultimately show ?thesis by simp
  next
    case False
    have "real_of_int n + 1 \<le> p + 1 / 2" "p + 1 / 2 < real_of_int n + 2"
      using e1 d f False s \<delta> by linarith+
    then have "\<lfloor>p + 1 / 2\<rfloor> = n + 1"
      by (intro floor_unique) simp_all
    moreover have "real_of_int n + 1 \<le> s * 100 + 1 / 2" "s * 100 + 1 / 2 < real_of_int n + 2"
      using f False s by linarith+
    then have "\<lfloor>s * 100 + 1 / 2\<rfloor> = n + 1"
      by (intro floor_unique) simp_all
    ultimately show ?thesis by simp
  qed
  then show ?thesis
    by (simp add: Math_round_def round_def p_def)
qed

lemmas binary64_eval =
  binary64_def binade_def bitlen_numeral_eval pow2_def round_even_def frac_def

lemma double_0705:
  "binary64 0.705 = 6350075474592399 / 9007199254740992"
  "binary64 (6350075474592399 / 9007199254740992 * 100) = 141 / 2"
  "binary64 0.71 = 799388933858263 / 1125899906842624"
  "binary64 0.70 = 3152519739159347 / 4503599627370496"
  by (simp_all add: binary64_eval)

lemma binade_half:
  assumes "1 / 2 \<le> x" "x < 1"
  shows "binade x = - 1"
proof -
  have "1 < 1 / x" "1 / x \<le> 2"
    using assms by (simp_all add: field_simps)
  then have "\<lceil>1 / x\<rceil> = 2"
    by (intro ceiling_unique) simp_all
  then show ?thesis
    using assms by (simp add: binade_def bitlen_numeral_eval)
qed

lemma double_085: "binary64 0.85 = 7656119366529843 / 9007199254740992"
  by (simp add: binary64_eval)

lemma compare_085:
  assumes "binary64 x = x"
  shows "(x > binary64 0.85) = (x > 0.85)"
proof
  assume "x > 0.85"
  then show "x > binary64 0.85"
    unfolding double_085 by simp
next
  assume a: "x > binary64 0.85"
  show "x > 0.85"
  proof (rule ccontr)
    assume "\<not> x > 0.85"
    then have le: "x \<le> 0.85" by simp
    from a have lo: "7656119366529843 / 9007199254740992 < x"
      unfolding double_085 .
    then have h: "1 / 2 \<le> x" "x < 1" "x \<noteq> 0" "\<bar>x\<bar> = x"
      using le by simp_all
    have b: "binade \<bar>x\<bar> = - 1"
      unfolding h(4) using h(1,2) by (rule binade_half)
    define n where "n = round_even (x / pow2 (max (binade \<bar>x\<bar>) (- 1022) - 52))"
    have "x = real_of_int n * pow2 (max (binade \<bar>x\<bar>) (- 1022) - 52)"
      using assms h(3) by (simp add: binary64_def n_def)
    then have x: "x = real_of_int n / 9007199254740992"
      unfolding b by (simp add: pow2_def)
    from lo have "real_of_int 7656119366529843 < real_of_int n"
      unfolding x by simp
    then have "7656119366529843 < n"
      by (simp only: of_int_less_iff)
    then have "7656119366529844 \<le> n" by simp
    then have "real_of_int 7656119366529844 \<le> real_of_int n"
      by (simp only: of_int_le_iff)
    then have "7656119366529844 / 9007199254740992 \<le> x"
      unfolding x by simp
    with le show False by simp
  qed
qed

lemma strength_update:
  "strength (make_edge node (m\<lparr>similarity := x\<rparr>)) =
     binary64 (real_of_int (Math_round (binary64 (x * 100))) / 100)"
  by (simp add: make_edge_def)

lemma strength_0705:
  "strength (make_edge node (m\<lparr>similarity := binary64 0.705\<rparr>)) = binary64 0.71"
proof -
  have "Math_round (141 / 2) = 71"
    by (simp add: Math_round_def)
  then have "binary64 (real_of_int (Math_round (141 / 2)) / 100) = binary64 0.71"
    by simp
  then show ?thesis
    unfolding strength_update double_0705(1) double_0705(2) .
qed

section \<open>Properties of the edges\<close>

text \<open>
  C4. Every edge of a run comes from an inserted node with an embedding and from a row
  of its search, and its label follows the types of the two: \<open>Continues\<close> for two
  meetings; for two decisions \<open>Resolves\<close> above similarity 0.85 and \<open>References\<close>
  otherwise; \<open>References\<close> for every other combination. Two decisions at 0.90 give
  \<open>Resolves\<close>, at 0.70 \<open>References\<close>, also at the binary64 values of the two; a
  binary64 similarity is above 0.85 exactly when it is above the binary64 value of the
  literal. The strength is the binary64 value nearest to
  \<open>k / 100\<close>, for the integer \<open>k\<close> nearest (a tie going up) to the binary64 product of the
  similarity and 100. For a similarity between \<open>-1\<close> and \<open>1\<close> it is at most
  \<open>0.005 + 1 / 2 ^ 52\<close> away from the similarity, and it is the binary64 value nearest to
  the similarity rounded to hundredths when the fractional part of the exact product is
  more than \<open>1 / 2 ^ 47\<close> away from a half. At the binary64 value of 0.705 the strength
  is that of 0.71, while the hundredth nearest to this similarity is 0.70.
\<close>

theorem accepted_edge_label:
  "(e \<in> set (find_related search n_candidates insertedNodes) \<longrightarrow>
      (\<exists>node m q similar. node \<in> set insertedNodes \<and> embedding node = Some q
         \<and> search q = Some similar \<and> m \<in> set similar \<and> e = make_edge node m))
   \<and> from_node (make_edge node m) = node_id node
   \<and> to_node (make_edge node m) = match_id m
   \<and> (node_type node = Meeting \<and> match_node_type m = Meeting \<longrightarrow>
        relation (make_edge node m) = Continues)
   \<and> (node_type node = Decision \<and> match_node_type m = Decision \<longrightarrow>
        relation (make_edge node m) = (if similarity m > 0.85 then Resolves else References))
   \<and> (\<not> (node_type node = Meeting \<and> match_node_type m = Meeting)
        \<and> \<not> (node_type node = Decision \<and> match_node_type m = Decision) \<longrightarrow>
        relation (make_edge node m) = References)
   \<and> (node_type node = Decision \<and> match_node_type m = Decision \<and> similarity m = 0.90 \<longrightarrow>
        relation (make_edge node m) = Resolves)
   \<and> (node_type node = Decision \<and> match_node_type m = Decision \<and> similarity m = 0.70 \<longrightarrow>
        relation (make_edge node m) = References)
   \<and> (node_type node = Decision \<and> match_node_type m = Decision
        \<and> similarity m = binary64 0.90 \<longrightarrow> relation (make_edge node m) = Resolves)
   \<and> (node_type node = Decision \<and> match_node_type m = Decision
        \<and> similarity m = binary64 0.70 \<longrightarrow> relation (make_edge node m) = References)
   \<and> (binary64 (similarity m) = similarity m \<longrightarrow>
        (similarity m > binary64 0.85) = (similarity m > 0.85))
   \<and> strength (make_edge node m) =
        binary64 (real_of_int (round (binary64 (similarity m * 100))) / 100)
   \<and> (\<bar>similarity m\<bar> \<le> 1 \<longrightarrow>
        \<bar>strength (make_edge node m) - similarity m\<bar> \<le> 1 / 200 + 1 / 2 ^ 52)
   \<and> (\<bar>similarity m\<bar> \<le> 1 \<and> \<bar>frac (similarity m * 100) - 1 / 2\<bar> > 1 / 2 ^ 47 \<longrightarrow>
        strength (make_edge node m) =
          binary64 (real_of_int (round (similarity m * 100)) / 100))
   \<and> strength (make_edge node (m\<lparr>similarity := binary64 0.705\<rparr>)) = binary64 0.71
   \<and> real_of_int (round (binary64 0.705 * 100)) / 100 = 0.70
   \<and> binary64 0.71 \<noteq> binary64 0.70"
proof -
  have prov: "e \<in> set (find_related search n_candidates insertedNodes) \<longrightarrow>
      (\<exists>node m q similar. node \<in> set insertedNodes \<and> embedding node = Some q
         \<and> search q = Some similar \<and> m \<in> set similar \<and> e = make_edge node m)"
  proof
    assume "e \<in> set (find_related search n_candidates insertedNodes)"
    then have "e \<in> set (node_loop search (MAX_RELATED * n_candidates) insertedNodes [])"
      by (simp add: find_related_def)
    from node_loop_provenance [OF this]
    show "\<exists>node m q similar. node \<in> set insertedNodes \<and> embedding node = Some q
         \<and> search q = Some similar \<and> m \<in> set similar \<and> e = make_edge node m"
      by auto
  qed
  have ends: "from_node (make_edge node m) = node_id node"
    "to_node (make_edge node m) = match_id m"
    by (simp_all add: make_edge_def)
  have rel: "relation (make_edge node m) =
      derive_relation (node_type node) (match_node_type m) (similarity m)"
    by (simp add: make_edge_def)
  have d90: "binary64 0.90 > 0.85" and d70: "\<not> binary64 0.70 > 0.85"
    by (simp_all add: binary64_eval)
  have rules:
    "node_type node = Meeting \<and> match_node_type m = Meeting \<longrightarrow>
        relation (make_edge node m) = Continues"
    "node_type node = Decision \<and> match_node_type m = Decision \<longrightarrow>
        relation (make_edge node m) = (if similarity m > 0.85 then Resolves else References)"
    "\<not> (node_type node = Meeting \<and> match_node_type m = Meeting)
        \<and> \<not> (node_type node = Decision \<and> match_node_type m = Decision) \<longrightarrow>
        relation (make_edge node m) = References"
    "node_type node = Decision \<and> match_node_type m = Decision \<and> similarity m = 0.90 \<longrightarrow>
        relation (make_edge node m) = Resolves"
    "node_type node = Decision \<and> match_node_type m = Decision \<and> similarity m = 0.70 \<longrightarrow>
        relation (make_edge node m) = References"
    by (simp_all add: rel derive_relation_def)
  have doubles:
    "node_type node = Decision \<and> match_node_type m = Decision
        \<and> similarity m = binary64 0.90 \<longrightarrow> relation (make_edge node m) = Resolves"
    "node_type node = Decision \<and> match_node_type m = Decision
        \<and> similarity m = binary64 0.70 \<longrightarrow> relation (make_edge node m) = References"
    using d90 d70 by (auto simp: rel derive_relation_def)
  have literal: "binary64 (similarity m) = similarity m \<longrightarrow>
      (similarity m > binary64 0.85) = (similarity m > 0.85)"
    by (rule impI, rule compare_085)
  have str: "strength (make_edge node m) =
      binary64 (real_of_int (Math_round (binary64 (similarity m * 100))) / 100)"
    by (simp add: make_edge_def)
  have str': "strength (make_edge node m) =
      binary64 (real_of_int (round (binary64 (similarity m * 100))) / 100)"
    unfolding str by (simp add: Math_round_def round_def)
  have bound: "\<bar>similarity m\<bar> \<le> 1 \<longrightarrow>
      \<bar>strength (make_edge node m) - similarity m\<bar> \<le> 1 / 200 + 1 / 2 ^ 52"
    unfolding str using strength_bound [of "similarity m"] by blast
  have exact: "\<bar>similarity m\<bar> \<le> 1 \<and> \<bar>frac (similarity m * 100) - 1 / 2\<bar> > 1 / 2 ^ 47 \<longrightarrow>
      strength (make_edge node m) = binary64 (real_of_int (round (similarity m * 100)) / 100)"
    unfolding str using strength_exact [of "similarity m"] by blast
  have tie: "strength (make_edge node (m\<lparr>similarity := binary64 0.705\<rparr>)) = binary64 0.71"
    by (rule strength_0705)
  have hundredth: "real_of_int (round (binary64 0.705 * 100)) / 100 = 0.70"
    unfolding double_0705(1) by (simp add: round_def)
  have differ: "binary64 0.71 \<noteq> binary64 0.70"
    unfolding double_0705(3,4) by simp
  from prov ends rules doubles literal str' bound exact tie hundredth differ show ?thesis
    by (intro conjI)
qed

theorem accepted_edge_label_witness:
  "find_related
     (\<lambda>q. Some [\<lparr>match_id = js ''d1'', match_node_type = Decision, similarity = binary64 0.90\<rparr>,
                 \<lparr>match_id = js ''d2'', match_node_type = Decision, similarity = binary64 0.70\<rparr>])
     1 [\<lparr>node_id = js ''d0'', node_type = Decision, embedding = Some [1]\<rparr>]
   = [\<lparr>from_node = js ''d0'', to_node = js ''d1'', relation = Resolves,
        strength = binary64 0.90\<rparr>,
      \<lparr>from_node = js ''d0'', to_node = js ''d2'', relation = References,
        strength = binary64 0.70\<rparr>]
   \<and> \<bar>binary64 0.90\<bar> \<le> 1
   \<and> \<bar>frac (binary64 0.90 * 100) - 1 / 2\<bar> > 1 / 2 ^ 47
   \<and> binary64 (binary64 0.90) = binary64 0.90
   \<and> binary64 0.90 > binary64 0.85
   \<and> strength (make_edge \<lparr>node_id = js ''d0'', node_type = Decision, embedding = Some [1]\<rparr>
        \<lparr>match_id = js ''d1'', match_node_type = Decision, similarity = binary64 0.90\<rparr>)
       = binary64 (real_of_int (round (binary64 0.90 * 100)) / 100)
   \<and> \<bar>strength (make_edge \<lparr>node_id = js ''d0'', node_type = Decision, embedding = Some [1]\<rparr>
        \<lparr>match_id = js ''d1'', match_node_type = Decision, similarity = binary64 0.90\<rparr>)
       - binary64 0.90\<bar> \<le> 1 / 200 + 1 / 2 ^ 52
   \<and> relation (make_edge \<lparr>node_id = js ''m0'', node_type = Meeting, embedding = Some [1]\<rparr>
        \<lparr>match_id = js ''m1'', match_node_type = Meeting, similarity = binary64 0.70\<rparr>)
       = Continues"
proof -
  have d: "binary64 0.90 = 8106479329266893 / 9007199254740992"
    "binary64 0.70 = 3152519739159347 / 4503599627370496"
    "binary64 (8106479329266893 / 9007199254740992 * 100) = 90"
    "binary64 (3152519739159347 / 4503599627370496 * 100) = 70"
    by (simp_all add: binary64_eval)
  have k: "real_of_int (Math_round 90) / 100 = 0.90" "real_of_int (Math_round 70) / 100 = 0.70"
    by (simp_all add: Math_round_def)
  have s: "binary64 (real_of_int (Math_round (binary64 (binary64 0.90 * 100))) / 100) = binary64 0.90"
    "binary64 (real_of_int (Math_round (binary64 (binary64 0.70 * 100))) / 100) = binary64 0.70"
    unfolding d(1) d(2) d(3) d(4) k by (simp_all only: d(1) d(2))
  have h: "\<bar>binary64 0.90\<bar> \<le> 1 \<and> \<bar>frac (binary64 0.90 * 100) - 1 / 2\<bar> > 1 / 2 ^ 47"
    unfolding d(1) by (simp add: frac_def)
  have r: "binary64 0.90 > 0.85" "\<not> binary64 0.70 > 0.85"
    unfolding d(1) d(2) by simp_all
  have i: "binary64 (binary64 0.90) = binary64 0.90"
    unfolding d(1) by (simp add: binary64_eval)
  have f: "find_related
     (\<lambda>q. Some [\<lparr>match_id = js ''d1'', match_node_type = Decision, similarity = binary64 0.90\<rparr>,
                 \<lparr>match_id = js ''d2'', match_node_type = Decision, similarity = binary64 0.70\<rparr>])
     1 [\<lparr>node_id = js ''d0'', node_type = Decision, embedding = Some [1]\<rparr>]
   = [\<lparr>from_node = js ''d0'', to_node = js ''d1'', relation = Resolves,
        strength = binary64 0.90\<rparr>,
      \<lparr>from_node = js ''d0'', to_node = js ''d2'', relation = References,
        strength = binary64 0.70\<rparr>]"
    using r s
    by (simp add: find_related_def MAX_RELATED_def alreadyHasEdge_def make_edge_def
        derive_relation_def)
  note t = accepted_edge_label [of _ _ _ _
      "\<lparr>node_id = js ''d0'', node_type = Decision, embedding = Some [1]\<rparr>"
      "\<lparr>match_id = js ''d1'', match_node_type = Decision, similarity = binary64 0.90\<rparr>",
      simplified match_row.select_convs]
  note t10 = t [THEN conjunct2, THEN conjunct2, THEN conjunct2, THEN conjunct2, THEN conjunct2,
      THEN conjunct2, THEN conjunct2, THEN conjunct2, THEN conjunct2, THEN conjunct2]
  from t10 [THEN conjunct1] i
  have g: "(binary64 0.90 > binary64 0.85) = (binary64 0.90 > 0.85)"
    by (rule mp)
  from g r(1) have g': "binary64 0.90 > binary64 0.85"
    by (rule iffD2)
  from t10 [THEN conjunct2, THEN conjunct2, THEN conjunct2, THEN conjunct1] h
  have a: "strength (make_edge \<lparr>node_id = js ''d0'', node_type = Decision, embedding = Some [1]\<rparr>
        \<lparr>match_id = js ''d1'', match_node_type = Decision, similarity = binary64 0.90\<rparr>)
       = binary64 (real_of_int (round (binary64 0.90 * 100)) / 100)"
    by (rule mp)
  from t10 [THEN conjunct2, THEN conjunct2, THEN conjunct1] h [THEN conjunct1]
  have b: "\<bar>strength (make_edge \<lparr>node_id = js ''d0'', node_type = Decision, embedding = Some [1]\<rparr>
        \<lparr>match_id = js ''d1'', match_node_type = Decision, similarity = binary64 0.90\<rparr>)
       - binary64 0.90\<bar> \<le> 1 / 200 + 1 / 2 ^ 52"
    by (rule mp)
  note u = accepted_edge_label [of _ _ _ _
      "\<lparr>node_id = js ''m0'', node_type = Meeting, embedding = Some [1]\<rparr>"
      "\<lparr>match_id = js ''m1'', match_node_type = Meeting, similarity = binary64 0.70\<rparr>"]
  have mm: "node_type \<lparr>node_id = js ''m0'', node_type = Meeting, embedding = Some [1]\<rparr> = Meeting
      \<and> match_node_type \<lparr>match_id = js ''m1'', match_node_type = Meeting,
            similarity = binary64 0.70\<rparr> = Meeting"
    by simp
  from u [THEN conjunct2, THEN conjunct2, THEN conjunct2, THEN conjunct1] mm
  have c: "relation (make_edge \<lparr>node_id = js ''m0'', node_type = Meeting, embedding = Some [1]\<rparr>
        \<lparr>match_id = js ''m1'', match_node_type = Meeting, similarity = binary64 0.70\<rparr>)
       = Continues"
    by (rule mp)
  from f h [THEN conjunct1] h [THEN conjunct2] i g' a b c show ?thesis
    by (intro conjI)
qed

theorem strength_tie_counterexample:
  "strength (make_edge \<lparr>node_id = js ''d0'', node_type = Decision, embedding = Some [1]\<rparr>
      (\<lparr>match_id = js ''d1'', match_node_type = Decision, similarity = 0\<rparr>
         \<lparr>similarity := binary64 0.705\<rparr>))
     = binary64 0.71
   \<and> real_of_int (round (binary64 0.705 * 100)) / 100 = 0.70
   \<and> binary64 0.71 \<noteq> binary64 0.70
   \<and> binary64 0.71 \<noteq> 0.70
   \<and> \<bar>binary64 0.71 - binary64 0.705\<bar> > 1 / 200"
proof -
  have "real_of_int (round (binary64 0.705 * 100)) / 100 = 0.70"
    unfolding double_0705(1) by (simp add: round_def)
  moreover have "binary64 0.71 \<noteq> binary64 0.70" "binary64 0.71 \<noteq> 0.70"
    "\<bar>binary64 0.71 - binary64 0.705\<bar> > 1 / 200"
    unfolding double_0705(1,3,4) by simp_all
  ultimately show ?thesis
    using strength_0705 by (intro conjI)
qed

section \<open>Properties of the linking stage\<close>

lemma update_status_meetings:
  "meetings st meetingId = Some m \<Longrightarrow>
     update_status st meetingId s = st\<lparr>meetings := (meetings st)(meetingId \<mapsto> m\<lparr>status := s\<rparr>)\<rparr>"
  by (simp add: update_status_def)

lemma update_status_other:
  "meetings st k = Some m \<Longrightarrow>
     \<exists>m'. meetings (update_status st meetingId s) k = Some m' \<and> (status m' = status m \<or> status m' = s)"
  by (auto simp: update_status_def split: option.splits)

lemma link_meeting_store:
  "link_meeting env st req = (resp, st') \<Longrightarrow> st' = st \<or> (\<exists>meetingId. st' = update_status st meetingId Done)"
  by (auto simp: link_meeting_def link_failed_def split: option.splits if_splits sum.splits)

text \<open>
  C1. Once the request carries a meeting identifier, an exception raised in the body of
  the linking stage leads to the handler, which answers with the failure and sets the
  status of the meeting to \<open>Done\<close>; the handler does so from any store and for any
  exception. No run of the stage moves a meeting into \<open>Failed\<close>: a status is left as
  it was or becomes \<open>Done\<close>.
\<close>

theorem link_exception_sets_done:
  "(http_method req \<noteq> js ''OPTIONS'' \<and> body_meeting_id req = Some meetingId \<and> meetingId \<noteq> []
      \<and> meetings st meetingId = Some m \<and> link_body env st meetingId = Inl e
    \<longrightarrow> link_meeting env st req =
          (Failure e, st\<lparr>meetings := (meetings st)(meetingId \<mapsto> m\<lparr>status := Done\<rparr>)\<rparr>))
   \<and> (meetings st0 meetingId = Some m0
    \<longrightarrow> link_failed st0 meetingId e0 =
          (Failure e0, st0\<lparr>meetings := (meetings st0)(meetingId \<mapsto> m0\<lparr>status := Done\<rparr>)\<rparr>))
   \<and> (link_meeting env st req = (resp, st') \<and> meetings st k = Some mk \<and> status mk \<noteq> Failed
    \<longrightarrow> (\<exists>m'. meetings st' k = Some m' \<and> status m' \<noteq> Failed
           \<and> (status m' = status mk \<or> status m' = Done)))"
proof (intro conjI impI)
  assume a: "http_method req \<noteq> js ''OPTIONS'' \<and> body_meeting_id req = Some meetingId \<and> meetingId \<noteq> []
      \<and> meetings st meetingId = Some m \<and> link_body env st meetingId = Inl e"
  then show "link_meeting env st req =
          (Failure e, st\<lparr>meetings := (meetings st)(meetingId \<mapsto> m\<lparr>status := Done\<rparr>)\<rparr>)"
    by (simp add: link_meeting_def link_failed_def update_status_meetings)
next
  assume "meetings st0 meetingId = Some m0"
  then show "link_failed st0 meetingId e0 =
          (Failure e0, st0\<lparr>meetings := (meetings st0)(meetingId \<mapsto> m0\<lparr>status := Done\<rparr>)\<rparr>)"
    by (simp add: link_failed_def update_status_meetings)
next
  assume a: "link_meeting env st req = (resp, st') \<and> meetings st k = Some mk \<and> status mk \<noteq> Failed"
  then have "st' = st \<or> (\<exists>meetingId. st' = update_status st meetingId Done)"
    using link_meeting_store by blast
  then show "\<exists>m'. meetings st' k = Some m' \<and> status m' \<noteq> Failed
           \<and> (status m' = status mk \<or> status m' = Done)"
  proof
    assume "st' = st"
    with a show ?thesis by simp
  next
    assume "\<exists>meetingId. st' = update_status st meetingId Done"
    then obtain i where "st' = update_status st i Done" ..
    with a update_status_other [of st k mk i Done] show ?thesis by auto
  qed
qed

theorem link_exception_sets_done_witness:
  "meetings (example_store Linking None) (js ''m1'') = Some (example_meeting Linking None)
   \<and> link_body rejecting_link_env (example_store Linking None) (js ''m1'')
       = Inl (Insert_nodes_failed (js ''rejected''))
   \<and> link_meeting rejecting_link_env (example_store Linking None) example_request
       = (Failure (Insert_nodes_failed (js ''rejected'')),
          (example_store Linking None)\<lparr>meetings :=
             (meetings (example_store Linking None))(js ''m1'' \<mapsto> (example_meeting Linking None)\<lparr>status := Done\<rparr>)\<rparr>)
   \<and> status (example_meeting Linking None) \<noteq> Failed"
proof -
  have b: "link_body rejecting_link_env (example_store Linking None) (js ''m1'')
       = Inl (Insert_nodes_failed (js ''rejected''))"
    by (simp add: link_body_def rejecting_link_env_def example_store_def)
  have m: "meetings (example_store Linking None) (js ''m1'') = Some (example_meeting Linking None)"
    by (simp add: example_store_def)
  have r: "http_method example_request \<noteq> js ''OPTIONS'' \<and> body_meeting_id example_request = Some (js ''m1'') \<and> js ''m1'' \<noteq> []"
    by (simp add: example_request_def)
  show ?thesis
    using b m r
      link_exception_sets_done [of example_request "js ''m1''" "example_store Linking None"
        "example_meeting Linking None" rejecting_link_env "Insert_nodes_failed (js ''rejected'')"]
    by (simp add: example_meeting_def)
qed

section \<open>Properties of the transcription stage\<close>

lemma update_status_transcripts:
  "transcripts (update_status st meetingId s) = transcripts st"
  by (simp add: update_status_def split: option.splits)



text \<open>
  C9. For a meeting that exists and has no audio path (none, or the empty string), the
  transcription stage answers with a failure of status 500, leaves the meeting in the
  status \<open>Failed\<close>, and leaves the transcripts as they were.
\<close>

theorem no_audio_fails:
  assumes "http_method req \<noteq> js ''OPTIONS''" "body_meeting_id req = Some meetingId"
    "meetingId \<noteq> []" "meetings st meetingId = Some m"
    "audio_path m = None \<or> audio_path m = Some []"
  shows "\<exists>e. transcribe_meeting env st req =
           (Failure e, st\<lparr>meetings := (meetings st)(meetingId \<mapsto> m\<lparr>status := Failed\<rparr>)\<rparr>)
         \<and> status_code (fst (transcribe_meeting env st req)) = 500
         \<and> transcripts (snd (transcribe_meeting env st req)) = transcripts st"
  using assms
  by (auto simp: transcribe_meeting_def transcribe_body_def transcribe_failed_def update_status_def
      split: option.splits)

theorem no_audio_fails_witness:
  "meetings (example_store Processing None) (js ''m1'') = Some (example_meeting Processing None)
   \<and> audio_path (example_meeting Processing None) = None
   \<and> transcribe_meeting (answering_transcribe_env (js ''Hello'')) (example_store Processing None)
        example_request
      = (Failure No_audio_uploaded,
         (example_store Processing None)\<lparr>meetings :=
            (meetings (example_store Processing None))
              (js ''m1'' \<mapsto> (example_meeting Processing None)\<lparr>status := Failed\<rparr>)\<rparr>)
   \<and> transcripts (snd (transcribe_meeting (answering_transcribe_env (js ''Hello''))
        (example_store Processing None) example_request)) = []"
proof -
  have m: "meetings (example_store Processing None) (js ''m1'') = Some (example_meeting Processing None)"
    by (simp add: example_store_def)
  have a: "audio_path (example_meeting Processing None) = None \<or> audio_path (example_meeting Processing None) = Some []"
    by (simp add: example_meeting_def)
  have r: "http_method example_request \<noteq> js ''OPTIONS''" "body_meeting_id example_request = Some (js ''m1'')"
     "js ''m1'' \<noteq> []"
    by (simp_all add: example_request_def)
  have b: "transcribe_body (answering_transcribe_env (js ''Hello'')) (example_store Processing None) (js ''m1'')
     = (example_store Processing None, Inl No_audio_uploaded)"
    by (simp add: transcribe_body_def answering_transcribe_env_def example_store_def example_meeting_def)
  from no_audio_fails [OF r m a, of "answering_transcribe_env (js ''Hello'')"]
  show ?thesis
    using m b r by (auto simp: example_meeting_def transcribe_meeting_def transcribe_failed_def example_store_def)
qed

lemma transcribe_body_success:
  assumes "transcribe_body env st meetingId = (st', Inr n)"
  shows "\<exists>(meeting :: meeting_row) part transcript.
           response_text (generate_transcript env part (language_name (language_code meeting))
             (language_code meeting)) = Inr transcript
           \<and> transcripts st' = transcripts st @ build_segments meetingId (language_code meeting) transcript
           \<and> n = length (build_segments meetingId (language_code meeting) transcript)"
proof -
  from assms show ?thesis
    unfolding transcribe_body_def Let_def
    by (auto simp: update_status_transcripts split: option.splits if_splits sum.splits prod.splits)
      blast+
qed

lemma transcribe_meeting_success:
  assumes "transcribe_meeting env st req = (Transcribed n, st')"
  shows "\<exists>meetingId. transcribe_body env st meetingId = (st', Inr n)"
  using assms
  by (auto simp: transcribe_meeting_def transcribe_failed_def split: option.splits if_splits sum.splits prod.splits)

text \<open>
  C7. A transcript that is empty after trimming, or is \<^verbatim>\<open>[inaudible]\<close> after trimming,
  gives exactly one segment, with the text \<^verbatim>\<open>[No speech detected in this recording]\<close>
  and no speaker label; a run of the stage that succeeds on such a transcript adds
  exactly this one segment to the transcripts.
\<close>

theorem no_speech_sentinel:
  "(trim transcript = [] \<or> trim transcript = js ''[inaudible]'' \<longrightarrow>
      build_segments meetingId lang transcript =
        [\<lparr>seg_meeting_id = meetingId, speaker_label = None,
          seg_text = js ''[No speech detected in this recording]'',
          start_seconds = 0, end_seconds = 0, confidence = None, seg_language = lang\<rparr>])
   \<and> ((\<forall>part l c. \<exists>t. response_text (generate_transcript env part l c) = Inr t
          \<and> (trim t = [] \<or> trim t = js ''[inaudible]''))
       \<and> transcribe_meeting env st req = (Transcribed n, st') \<longrightarrow>
      n = 1 \<and> (\<exists>i l. transcripts st' = transcripts st @
        [\<lparr>seg_meeting_id = i, speaker_label = None,
          seg_text = js ''[No speech detected in this recording]'',
          start_seconds = 0, end_seconds = 0, confidence = None, seg_language = l\<rparr>]))"
proof (intro conjI impI)
  show sentinel: "build_segments meetingId lang transcript =
        [\<lparr>seg_meeting_id = meetingId, speaker_label = None,
          seg_text = js ''[No speech detected in this recording]'',
          start_seconds = 0, end_seconds = 0, confidence = None, seg_language = lang\<rparr>]"
    if "trim transcript = [] \<or> trim transcript = js ''[inaudible]''" for transcript meetingId lang
    using that by (auto simp: build_segments_def no_speech_segment_def)
  assume a: "(\<forall>part l c. \<exists>t. response_text (generate_transcript env part l c) = Inr t
          \<and> (trim t = [] \<or> trim t = js ''[inaudible]''))
       \<and> transcribe_meeting env st req = (Transcribed n, st')"
  then obtain meetingId where "transcribe_body env st meetingId = (st', Inr n)"
    using transcribe_meeting_success by blast
  from transcribe_body_success [OF this] obtain meeting :: meeting_row and part transcript where
    t: "response_text (generate_transcript env part (language_name (language_code meeting))
             (language_code meeting)) = Inr transcript"
    and s: "transcripts st' = transcripts st @ build_segments meetingId (language_code meeting) transcript"
    and n: "n = length (build_segments meetingId (language_code meeting) transcript)"
    by blast
  from a t have "trim transcript = [] \<or> trim transcript = js ''[inaudible]''"
    by (metis Inr_inject)
  from sentinel [OF this] s n
  show "n = 1" and "\<exists>i l. transcripts st' = transcripts st @
        [\<lparr>seg_meeting_id = i, speaker_label = None,
          seg_text = js ''[No speech detected in this recording]'',
          start_seconds = 0, end_seconds = 0, confidence = None, seg_language = l\<rparr>]"
    by auto
qed

lemma trim_inaudible: "trim (js '' [inaudible]'' @ [10]) = js ''[inaudible]''"
  by (simp add: trim_def is_space_def)

theorem no_speech_sentinel_witness:
  "trim (js '' [inaudible]'' @ [10]) = js ''[inaudible]''
   \<and> transcribe_meeting (answering_transcribe_env (js '' [inaudible]'' @ [10]))
        (example_store Processing (Some (js ''a.m4a''))) example_request
      = (Transcribed 1,
         \<lparr>meetings = [js ''m1'' \<mapsto> example_meeting Analyzing (Some (js ''a.m4a''))],
          transcripts =
            [\<lparr>seg_meeting_id = js ''m1'', speaker_label = None,
              seg_text = js ''[No speech detected in this recording]'',
              start_seconds = 0, end_seconds = 0, confidence = None,
              seg_language = js ''en-US''\<rparr>],
          meeting_notes = Map.empty, action_items = []\<rparr>)"
proof -
  have s: "build_segments (js ''m1'') (js ''en-US'') (js '' [inaudible]'' @ [10]) =
        [\<lparr>seg_meeting_id = js ''m1'', speaker_label = None,
          seg_text = js ''[No speech detected in this recording]'',
          start_seconds = 0, end_seconds = 0, confidence = None, seg_language = js ''en-US''\<rparr>]"
    using no_speech_sentinel [of "js '' [inaudible]'' @ [10]" "js ''m1''" "js ''en-US''"] trim_inaudible
    by blast
  have r: "response_text \<lparr>gen_ok = True, gen_status = 200, gen_text = [],
             gen_json = Body (Some (js '' [inaudible]'' @ [10]))\<rparr> = Inr (js '' [inaudible]'' @ [10])"
    by (simp add: response_text_def)
  have "transcribe_body (answering_transcribe_env (js '' [inaudible]'' @ [10]))
        (example_store Processing (Some (js ''a.m4a''))) (js ''m1'')
     = (\<lparr>meetings = [js ''m1'' \<mapsto> example_meeting Analyzing (Some (js ''a.m4a''))],
          transcripts = build_segments (js ''m1'') (js ''en-US'') (js '' [inaudible]'' @ [10]),
          meeting_notes = Map.empty, action_items = []\<rparr>, Inr (length (build_segments (js ''m1'') (js ''en-US'') (js '' [inaudible]'' @ [10]))))"
    unfolding transcribe_body_def
    by (simp add: answering_transcribe_env_def example_store_def example_meeting_def
        transfer_audio_def response_text_def update_status_def language_name_def Let_def)
  then show ?thesis
    using trim_inaudible s
    by (simp add: transcribe_meeting_def example_request_def)
qed

section \<open>Properties of the analysis stage\<close>

lemma update_status_meeting_notes:
  "meeting_notes (update_status st meetingId s) = meeting_notes st"
  by (simp add: update_status_def split: option.splits)

text \<open>
  C8. When \<^verbatim>\<open>JSON.parse\<close> rejects the response stripped of its fences, the analysis is
  the fallback: the first 500 code units of the raw response as summary, and three empty
  arrays. Nothing is thrown: with transcripts at hand and a store that accepts the
  note, the stage answers with a success, stores the note and moves the meeting to
  \<open>Linking\<close>.
\<close>

theorem unparseable_fallback:
  "(JSON_parse env (json_text rawText) = Syntax_error \<longrightarrow>
      parse_analysis env rawText =
        Some \<lparr>a_summary = Some (take 500 rawText), a_action_items = Some [],
              a_decisions = Some [], a_open_questions = Some []\<rparr>)
   \<and> (JSON_parse env (json_text rawText) = Syntax_error
       \<and> http_method req \<noteq> js ''OPTIONS'' \<and> body_meeting_id req = Some meetingId
       \<and> meetingId \<noteq> [] \<and> fetch_transcripts_error env = None
       \<and> meeting_transcripts st meetingId \<noteq> []
       \<and> (\<forall>l f. response_text (generate_analysis env l f) = Inr rawText)
       \<and> (\<forall>note. upsert_note_error env note = None) \<longrightarrow>
      analyze_meeting env st req =
        (Analyzed (length (take 500 rawText)) 0 0,
         update_status
           (st\<lparr>meeting_notes := (meeting_notes st)(meetingId \<mapsto>
                 \<lparr>summary = (if rawText = [] then js ''No summary generated''
                              else take 500 rawText),
                  decisions = [], open_questions = [],
                  raw_analysis =
                    \<lparr>a_summary = Some (take 500 rawText), a_action_items = Some [],
                     a_decisions = Some [], a_open_questions = Some []\<rparr>,
                  model_version = js ''gemini-2.5-flash''\<rparr>)\<rparr>)
           meetingId Linking))"
proof (intro conjI impI)
  assume "JSON_parse env (json_text rawText) = Syntax_error"
  then show "parse_analysis env rawText =
        Some \<lparr>a_summary = Some (take 500 rawText), a_action_items = Some [],
              a_decisions = Some [], a_open_questions = Some []\<rparr>"
    by (simp add: parse_analysis_def)
next
  assume a: "JSON_parse env (json_text rawText) = Syntax_error
       \<and> http_method req \<noteq> js ''OPTIONS'' \<and> body_meeting_id req = Some meetingId
       \<and> meetingId \<noteq> [] \<and> fetch_transcripts_error env = None
       \<and> meeting_transcripts st meetingId \<noteq> []
       \<and> (\<forall>l f. response_text (generate_analysis env l f) = Inr rawText)
       \<and> (\<forall>note. upsert_note_error env note = None)"
  then have p: "parse_analysis env rawText =
        Some \<lparr>a_summary = Some (take 500 rawText), a_action_items = Some [],
              a_decisions = Some [], a_open_questions = Some []\<rparr>"
    by (simp add: parse_analysis_def)
  from a obtain t0 ts where t: "meeting_transcripts st meetingId = t0 # ts"
    by (cases "meeting_transcripts st meetingId") auto
  have "analyze_body env st meetingId =
      (update_status
           (st\<lparr>meeting_notes := (meeting_notes st)(meetingId \<mapsto>
                 \<lparr>summary = (if rawText = [] then js ''No summary generated''
                              else take 500 rawText),
                  decisions = [], open_questions = [],
                  raw_analysis =
                    \<lparr>a_summary = Some (take 500 rawText), a_action_items = Some [],
                     a_decisions = Some [], a_open_questions = Some []\<rparr>,
                  model_version = js ''gemini-2.5-flash''\<rparr>)\<rparr>)
           meetingId Linking, Inr (length (take 500 rawText), 0, 0))"
    using a unfolding analyze_body_def
    by (simp add: t p note_of_def or_string_def or_empty_def)
  with a show "analyze_meeting env st req =
        (Analyzed (length (take 500 rawText)) 0 0,
         update_status
           (st\<lparr>meeting_notes := (meeting_notes st)(meetingId \<mapsto>
                 \<lparr>summary = (if rawText = [] then js ''No summary generated''
                              else take 500 rawText),
                  decisions = [], open_questions = [],
                  raw_analysis =
                    \<lparr>a_summary = Some (take 500 rawText), a_action_items = Some [],
                     a_decisions = Some [], a_open_questions = Some []\<rparr>,
                  model_version = js ''gemini-2.5-flash''\<rparr>)\<rparr>)
           meetingId Linking)"
    by (simp add: analyze_meeting_def)
qed


lemma analyze_body_notes:
  "meeting_notes (fst (analyze_body env st meetingId)) = meeting_notes st
     \<or> (\<exists>a. meeting_notes (fst (analyze_body env st meetingId))
            = (meeting_notes st)(meetingId \<mapsto> note_of a))"
  unfolding analyze_body_def Let_def
  by (simp add: update_status_meeting_notes
      split: option.split list.split sum.split) blast


lemma note_of_summary: "summary (note_of a) \<noteq> []"
  by (simp add: note_of_def or_string_def split: option.splits)

lemma analyze_meeting_notes:
  "meeting_notes (snd (analyze_meeting env st req)) = meeting_notes st
     \<or> (\<exists>meetingId a. meeting_notes (snd (analyze_meeting env st req))
            = (meeting_notes st)(meetingId \<mapsto> note_of a))"
proof (cases "http_method req \<noteq> js ''OPTIONS'' \<and> (\<exists>i. body_meeting_id req = Some i \<and> i \<noteq> [])")
  case False
  then show ?thesis
    by (auto simp: analyze_meeting_def split: option.splits)
next
  case True
  then obtain i where i: "body_meeting_id req = Some i" "i \<noteq> []" "http_method req \<noteq> js ''OPTIONS''"
    by blast
  obtain st1 r where b: "analyze_body env st i = (st1, r)"
    by (cases "analyze_body env st i")
  have "meeting_notes (snd (analyze_meeting env st req)) = meeting_notes st1"
    using i b by (simp add: analyze_meeting_def analyze_failed_def update_status_meeting_notes
        split: sum.splits prod.splits)
  moreover have "meeting_notes st1 = meeting_notes st
     \<or> (\<exists>a. meeting_notes st1 = (meeting_notes st)(i \<mapsto> note_of a))"
    using analyze_body_notes [of env st i] b by simp
  ultimately show ?thesis by auto
qed

text \<open>
  C10. The summary of the row given to the upsert is never empty: an absent or empty
  summary of the analysis is replaced by \<^verbatim>\<open>No summary generated\<close>, any other is kept.
  Every note that a run of the stage puts into the store has a summary that is not
  empty.
\<close>

theorem stored_summary_nonempty:
  "summary (note_of a) \<noteq> []
   \<and> (a_summary a = None \<or> a_summary a = Some [] \<longrightarrow>
        summary (note_of a) = js ''No summary generated'')
   \<and> (a_summary a = Some s \<and> s \<noteq> [] \<longrightarrow> summary (note_of a) = s)
   \<and> (analyze_meeting env st req = (resp, st') \<and> meeting_notes st' k = Some n
        \<and> meeting_notes st k \<noteq> Some n \<longrightarrow> summary n \<noteq> [])"
proof (intro conjI impI)
  show "summary (note_of a) \<noteq> []"
    by (rule note_of_summary)
  show "summary (note_of a) = js ''No summary generated''"
    if "a_summary a = None \<or> a_summary a = Some []"
    using that by (auto simp: note_of_def or_string_def)
  show "summary (note_of a) = s" if "a_summary a = Some s \<and> s \<noteq> []"
    using that by (simp add: note_of_def or_string_def)
  assume h: "analyze_meeting env st req = (resp, st') \<and> meeting_notes st' k = Some n
        \<and> meeting_notes st k \<noteq> Some n"
  then have "meeting_notes st' = meeting_notes st
     \<or> (\<exists>meetingId a. meeting_notes st' = (meeting_notes st)(meetingId \<mapsto> note_of a))"
    using analyze_meeting_notes [of env st req] by simp
  then show "summary n \<noteq> []"
  proof
    assume "meeting_notes st' = meeting_notes st"
    with h show ?thesis by simp
  next
    assume "\<exists>meetingId a. meeting_notes st' = (meeting_notes st)(meetingId \<mapsto> note_of a)"
    then obtain i b where "meeting_notes st' = (meeting_notes st)(i \<mapsto> note_of b)"
      by blast
    with h have "n = note_of b"
      by (cases "k = i") auto
    then show ?thesis by (simp add: note_of_summary)
  qed
qed


lemma transcribed_store_transcripts:
  "meeting_transcripts transcribed_store (js ''m1'') =
     [\<lparr>seg_meeting_id = js ''m1'', speaker_label = Some (js ''Speaker 1''),
       seg_text = js ''Hello'', start_seconds = 0, end_seconds = 0, confidence = None,
       seg_language = js ''en-US''\<rparr>]"
  by (simp add: meeting_transcripts_def transcribed_store_def example_store_def)

theorem unparseable_fallback_witness:
  "JSON_parse (answering_analyze_env (js ''Sorry, no notes'')) (json_text (js ''Sorry, no notes''))
     = Syntax_error
   \<and> parse_analysis (answering_analyze_env (js ''Sorry, no notes'')) (js ''Sorry, no notes'')
     = Some \<lparr>a_summary = Some (js ''Sorry, no notes''), a_action_items = Some [],
             a_decisions = Some [], a_open_questions = Some []\<rparr>
   \<and> fst (analyze_meeting (answering_analyze_env (js ''Sorry, no notes'')) transcribed_store
        example_request) = Analyzed 15 0 0
   \<and> map_option summary (meeting_notes (snd (analyze_meeting
        (answering_analyze_env (js ''Sorry, no notes'')) transcribed_store example_request))
        (js ''m1'')) = Some (js ''Sorry, no notes'')"
proof -
  have h: "JSON_parse (answering_analyze_env (js ''Sorry, no notes'')) (json_text (js ''Sorry, no notes''))
     = Syntax_error
       \<and> http_method example_request \<noteq> js ''OPTIONS''
       \<and> body_meeting_id example_request = Some (js ''m1'')
       \<and> js ''m1'' \<noteq> [] \<and> fetch_transcripts_error (answering_analyze_env (js ''Sorry, no notes'')) = None
       \<and> meeting_transcripts transcribed_store (js ''m1'') \<noteq> []
       \<and> (\<forall>l f. response_text (generate_analysis (answering_analyze_env (js ''Sorry, no notes'')) l f)
             = Inr (js ''Sorry, no notes''))
       \<and> (\<forall>note. upsert_note_error (answering_analyze_env (js ''Sorry, no notes'')) note = None)"
    using transcribed_store_transcripts
    by (simp add: answering_analyze_env_def example_request_def response_text_def)
  show ?thesis
    using h unparseable_fallback [of "answering_analyze_env (js ''Sorry, no notes'')"
        "js ''Sorry, no notes''" example_request "js ''m1''" transcribed_store]
    by (simp add: update_status_meeting_notes)
qed

theorem stored_summary_nonempty_witness:
  "summary (note_of \<lparr>a_summary = Some [], a_action_items = None, a_decisions = None,
                     a_open_questions = None\<rparr>) = js ''No summary generated''
   \<and> summary (note_of \<lparr>a_summary = Some (js ''Plan agreed''), a_action_items = None,
                     a_decisions = None, a_open_questions = None\<rparr>) = js ''Plan agreed''
   \<and> map_option summary (meeting_notes (snd (analyze_meeting (answering_analyze_env [])
        transcribed_store example_request)) (js ''m1'')) = Some (js ''No summary generated'')
   \<and> meeting_notes transcribed_store (js ''m1'') = None"
proof -
  have n: "meeting_notes (snd (analyze_meeting (answering_analyze_env [])
        transcribed_store example_request)) (js ''m1'') =
      Some (note_of \<lparr>a_summary = Some [], a_action_items = Some [], a_decisions = Some [],
                     a_open_questions = Some []\<rparr>)"
    using transcribed_store_transcripts
    by (simp add: analyze_meeting_def analyze_body_def
        answering_analyze_env_def example_request_def response_text_def parse_analysis_def
        or_empty_def update_status_meeting_notes)
  have e: "meeting_notes transcribed_store (js ''m1'') = None"
    by (simp add: transcribed_store_def example_store_def)
  from stored_summary_nonempty [of
      "\<lparr>a_summary = Some [], a_action_items = None, a_decisions = None, a_open_questions = None\<rparr>"]
    stored_summary_nonempty [of
      "\<lparr>a_summary = Some (js ''Plan agreed''), a_action_items = None, a_decisions = None,
        a_open_questions = None\<rparr>" "js ''Plan agreed''"]
    stored_summary_nonempty [of _ _ "answering_analyze_env []" transcribed_store example_request
      "fst (analyze_meeting (answering_analyze_env []) transcribed_store example_request)"
      "snd (analyze_meeting (answering_analyze_env []) transcribed_store example_request)"
      "js ''m1''"
      "note_of \<lparr>a_summary = Some [], a_action_items = Some [], a_decisions = Some [],
                a_open_questions = Some []\<rparr>"]
    n e
  show ?thesis
    by (simp add: note_of_def or_string_def)
qed

section \<open>Properties of the transcript parser\<close>

lemma digit_not_space: "is_digit c \<Longrightarrow> \<not> is_space c"
  by (auto simp: is_digit_def is_space_def)

lemma colon_class: "\<not> is_space 58" "\<not> is_digit 58"
  by (simp_all add: is_digit_def is_space_def)

lemma ci_word_length: "ci_word pat w \<Longrightarrow> length w = length pat"
  by (auto simp: ci_word_def dest: list_all2_lengthD)

lemma takeWhile_block:
  "list_all P xs \<Longrightarrow> ys = [] \<or> \<not> P (hd ys) \<Longrightarrow> takeWhile P (xs @ ys) = xs"
  by (induction xs) (auto simp: takeWhile_eq_Nil_iff)

lemma dropWhile_block:
  "list_all P xs \<Longrightarrow> ys = [] \<or> \<not> P (hd ys) \<Longrightarrow> dropWhile P (xs @ ys) = ys"
  by (induction xs) (auto simp: dropWhile_eq_self_iff)

lemma match_speaker_complete:
  assumes w: "ci_word ''SPEAKER'' w" and ws1: "list_all is_space ws1"
    and ds: "ds \<noteq> []" "list_all is_digit ds" and ws2: "list_all is_space ws2"
    and ws3: "list_all is_space ws3" and rest: "rest = [] \<or> \<not> is_space (hd rest)"
  shows "match_speaker (w @ ws1 @ ds @ ws2 @ [58] @ ws3 @ rest)
           = Some (w @ ws1 @ ds @ ws2 @ [58] @ ws3, w @ ws1 @ ds)"
proof -
  let ?line = "w @ ws1 @ ds @ ws2 @ [58] @ ws3 @ rest"
  have len: "length w = 7"
    using ci_word_length [OF w] by simp
  have t: "take 7 ?line = w" and d: "drop 7 ?line = ws1 @ (ds @ ws2 @ [58] @ ws3 @ rest)"
    using len by simp_all
  have hd_ds: "is_digit (hd ds)"
    using ds by (cases ds) auto
  have a1: "ds @ ws2 @ [58] @ ws3 @ rest = [] \<or> \<not> is_space (hd (ds @ ws2 @ [58] @ ws3 @ rest))"
    using ds hd_ds by (simp add: digit_not_space)
  have a2: "ws2 @ [58] @ ws3 @ rest = [] \<or> \<not> is_digit (hd (ws2 @ [58] @ ws3 @ rest))"
    using ws2 by (cases ws2) (auto simp: colon_class dest: digit_not_space)
  have a3: "[58] @ ws3 @ rest = [] \<or> \<not> is_space (hd ([58] @ ws3 @ rest))"
    by (simp add: colon_class)
  have s1: "takeWhile is_space (ws1 @ (ds @ ws2 @ [58] @ ws3 @ rest)) = ws1"
    and s2: "dropWhile is_space (ws1 @ (ds @ ws2 @ [58] @ ws3 @ rest)) = ds @ (ws2 @ [58] @ ws3 @ rest)"
    using takeWhile_block [OF ws1 a1] dropWhile_block [OF ws1 a1] by simp_all
  have s3: "takeWhile is_digit (ds @ (ws2 @ [58] @ ws3 @ rest)) = ds"
    and s4: "dropWhile is_digit (ds @ (ws2 @ [58] @ ws3 @ rest)) = ws2 @ ([58] @ ws3 @ rest)"
    using takeWhile_block [OF ds(2) a2] dropWhile_block [OF ds(2) a2] by simp_all
  have s5: "takeWhile is_space (ws2 @ ([58] @ ws3 @ rest)) = ws2"
    and s6: "dropWhile is_space (ws2 @ ([58] @ ws3 @ rest)) = 58 # (ws3 @ rest)"
    using takeWhile_block [OF ws2 a3] dropWhile_block [OF ws2 a3] by simp_all
  have s7: "takeWhile is_space (ws3 @ rest) = ws3"
    by (rule takeWhile_block [OF ws3 rest])
  show ?thesis
    unfolding match_speaker_def t d Let_def s1 s2 s3 s4 s5 s6
    using w ds(1) by (simp add: s7)
qed

lemma match_speaker_sound:
  assumes "match_speaker line = Some (m0, m1)"
  shows "\<exists>w ws1 ds ws2 ws3 rest.
           line = w @ ws1 @ ds @ ws2 @ [58] @ ws3 @ rest \<and> ci_word ''SPEAKER'' w
           \<and> list_all is_space ws1 \<and> ds \<noteq> [] \<and> list_all is_digit ds \<and> list_all is_space ws2
           \<and> list_all is_space ws3 \<and> (rest = [] \<or> \<not> is_space (hd rest))
           \<and> m0 = w @ ws1 @ ds @ ws2 @ [58] @ ws3 \<and> m1 = w @ ws1 @ ds"
proof -
  define w where "w = take 7 line"
  define r1 where "r1 = drop 7 line"
  define ws1 where "ws1 = takeWhile is_space r1"
  define r2 where "r2 = dropWhile is_space r1"
  define ds where "ds = takeWhile is_digit r2"
  define r3 where "r3 = dropWhile is_digit r2"
  define ws2 where "ws2 = takeWhile is_space r3"
  define r4 where "r4 = dropWhile is_space r3"
  have m: "match_speaker line =
     (if \<not> ci_word ''SPEAKER'' w \<or> ds = [] then None
      else (case r4 of [] \<Rightarrow> None
            | c # r5 \<Rightarrow> if c = 58
                then Some (w @ ws1 @ ds @ ws2 @ [58] @ takeWhile is_space r5, w @ ws1 @ ds)
                else None))"
    unfolding match_speaker_def Let_def w_def r4_def ws2_def r3_def ds_def r2_def ws1_def r1_def
    by (rule refl)
  from assms m obtain r5 where
    c: "ci_word ''SPEAKER'' w" "ds \<noteq> []" "r4 = 58 # r5"
      "m0 = w @ ws1 @ ds @ ws2 @ [58] @ takeWhile is_space r5" "m1 = w @ ws1 @ ds"
    by (auto split: if_splits list.splits)
  have "line = w @ r1"
    by (simp add: w_def r1_def)
  also have "r1 = ws1 @ r2"
    by (simp add: ws1_def r2_def)
  also have "r2 = ds @ r3"
    by (simp add: ds_def r3_def)
  also have "r3 = ws2 @ r4"
    by (simp add: ws2_def r4_def)
  also have "r4 = [58] @ takeWhile is_space r5 @ dropWhile is_space r5"
    using c(3) by simp
  finally have l: "line = w @ ws1 @ ds @ ws2 @ [58] @ takeWhile is_space r5 @ dropWhile is_space r5" .
  have p: "list_all is_space ws1" "list_all is_digit ds" "list_all is_space ws2"
    "list_all is_space (takeWhile is_space r5)"
    by (auto simp: ws1_def ds_def ws2_def list_all_iff dest: set_takeWhileD)
  have q: "dropWhile is_space r5 = [] \<or> \<not> is_space (hd (dropWhile is_space r5))"
    using hd_dropWhile [of is_space r5] by blast
  from l c p q show ?thesis by blast
qed

lemma replace_first_prefix: "prefix pat s \<Longrightarrow> replace_first pat s = drop (length pat) s"
  by (cases s) auto

lemma trimmed_ends:
  "trim s = s \<longleftrightarrow> s = [] \<or> (\<not> is_space (hd s) \<and> \<not> is_space (last s))"
proof (cases "s = []")
  case True
  then show ?thesis by (simp add: trim_def)
next
  case False
  show ?thesis
  proof (cases "is_space (hd s)")
    case True
    have "length (trim s) \<le> length (dropWhile is_space s)"
      unfolding trim_def using length_dropWhile_le [of is_space "rev (dropWhile is_space s)"]
      by simp
    also have "\<dots> < length s"
      using False True by (cases s) (auto simp: le_imp_less_Suc length_dropWhile_le)
    finally have "trim s \<noteq> s" by auto
    with True False show ?thesis by simp
  next
    case nsp: False
    then have d: "dropWhile is_space s = s"
      by (simp add: dropWhile_eq_self_iff)
    have "trim s = s \<longleftrightarrow> dropWhile is_space (rev s) = rev s"
      unfolding trim_def d by (metis rev_rev_ident)
    also have "\<dots> \<longleftrightarrow> \<not> is_space (last s)"
      using False by (simp add: dropWhile_eq_self_iff hd_rev)
    finally show ?thesis using nsp False by simp
  qed
qed

lemma trim_rest:
  assumes "trim (pre @ rest) = pre @ rest" "rest = [] \<or> \<not> is_space (hd rest)"
  shows "trim rest = rest"
proof (cases "rest = []")
  case True
  then show ?thesis by (simp add: trim_def)
next
  case False
  with assms(1) have "\<not> is_space (last rest)"
    by (simp add: trimmed_ends)
  with assms(2) False show ?thesis
    by (simp add: trimmed_ends)
qed

lemma parse_lines_map:
  "parse_lines meetingId lang ls =
     map (line_segment meetingId lang) (filter (\<lambda>l. l \<noteq> []) (map trim ls))"
  by (induction ls) simp_all


lemma trim_Nil_iff: "trim s = [] \<longleftrightarrow> list_all is_space s"
proof -
  let ?u = "dropWhile is_space s"
  have "trim s = [] \<longleftrightarrow> (\<forall>c \<in> set ?u. is_space c)"
    by (simp add: trim_def dropWhile_eq_Nil_conv)
  also have "\<dots> \<longleftrightarrow> ?u = []"
  proof
    assume a: "\<forall>c \<in> set ?u. is_space c"
    show "?u = []"
    proof (rule ccontr)
      assume n: "?u \<noteq> []"
      then have "hd ?u \<in> set ?u" by (rule hd_in_set)
      with a have "is_space (hd ?u)" by blast
      with hd_dropWhile [OF n] show False by blast
    qed
  next
    assume e: "?u = []"
    show "\<forall>c \<in> set ?u. is_space c"
      unfolding e by simp
  qed
  also have "\<dots> \<longleftrightarrow> list_all is_space s"
    by (simp add: dropWhile_eq_Nil_conv list_all_iff)
  finally show ?thesis .
qed

lemma last_dropWhile_keep: "dropWhile P xs \<noteq> [] \<Longrightarrow> last (dropWhile P xs) = last xs"
  by (induction xs) (auto split: if_splits)

lemma trim_hd: "trim s \<noteq> [] \<Longrightarrow> \<not> is_space (hd (trim s))"
proof -
  assume n: "trim s \<noteq> []"
  let ?u = "dropWhile is_space s"
  from n have d: "dropWhile is_space (rev ?u) \<noteq> []"
    by (simp add: trim_def)
  then have u: "?u \<noteq> []" by (cases "?u") simp_all
  have "hd (trim s) = last (dropWhile is_space (rev ?u))"
    using d by (simp add: trim_def hd_rev)
  also have "\<dots> = last (rev ?u)"
    using d by (rule last_dropWhile_keep)
  also have "\<dots> = hd ?u"
    using u by (simp add: last_rev)
  finally show ?thesis
    using hd_dropWhile [OF u] by simp
qed

lemma split_lines_first:
  "s \<noteq> [] \<Longrightarrow> hd s \<noteq> 10 \<Longrightarrow> \<exists>l ls. split_lines s = l # ls \<and> l \<noteq> [] \<and> hd l = hd s"
  by (cases s) (auto split: list.splits)

lemma parse_lines_nonempty:
  assumes "trim transcript \<noteq> []"
  shows "parse_lines meetingId lang (split_lines (trim transcript)) \<noteq> []"
proof -
  have h: "\<not> is_space (hd (trim transcript))"
    using assms by (rule trim_hd)
  then have "hd (trim transcript) \<noteq> 10"
    by (auto simp: is_space_def)
  with assms obtain l ls where
    l: "split_lines (trim transcript) = l # ls" "l \<noteq> []" "hd l = hd (trim transcript)"
    using split_lines_first by blast
  with h have "\<not> list_all is_space l"
    by (cases l) auto
  then have "trim l \<noteq> []"
    by (simp add: trim_Nil_iff)
  with l(1) show ?thesis by simp
qed

lemma example_lines:
  "trim (js ''Speaker 1: Hello'' @ [10] @ js ''Hello back'')
     = js ''Speaker 1: Hello'' @ [10] @ js ''Hello back''"
  "split_lines (js ''Speaker 1: Hello'' @ [10] @ js ''Hello back'')
     = [js ''Speaker 1: Hello'', js ''Hello back'']"
  "trim (js ''Speaker 1: Hello'') = js ''Speaker 1: Hello''"
  "trim (js ''Hello back'') = js ''Hello back''"
  by (simp_all add: trim_def is_space_def)

lemma example_match:
  "match_speaker (js ''Speaker 1: Hello'') = Some (js ''Speaker 1: '', js ''Speaker 1'')"
  "match_speaker (js ''Hello back'') = None"
  by (simp_all add: match_speaker_def ci_word_def is_space_def is_digit_def)

lemma example_segments:
  "line_segment meetingId lang (js ''Speaker 1: Hello'') =
     \<lparr>seg_meeting_id = meetingId, speaker_label = Some (js ''Speaker 1''), seg_text = js ''Hello'',
      start_seconds = 0, end_seconds = 0, confidence = None, seg_language = lang\<rparr>"
  "line_segment meetingId lang (js ''Hello back'') =
     \<lparr>seg_meeting_id = meetingId, speaker_label = None, seg_text = js ''Hello back'',
      start_seconds = 0, end_seconds = 0, confidence = None, seg_language = lang\<rparr>"
  unfolding line_segment_def example_match
  by (simp_all add: trim_def is_space_def)

lemma example_transcript:
  "build_segments meetingId lang (js ''Speaker 1: Hello'' @ [10] @ js ''Hello back'') =
     [\<lparr>seg_meeting_id = meetingId, speaker_label = Some (js ''Speaker 1''), seg_text = js ''Hello'',
       start_seconds = 0, end_seconds = 0, confidence = None, seg_language = lang\<rparr>,
      \<lparr>seg_meeting_id = meetingId, speaker_label = None, seg_text = js ''Hello back'',
       start_seconds = 0, end_seconds = 0, confidence = None, seg_language = lang\<rparr>]"
proof -
  have "parse_lines meetingId lang [js ''Speaker 1: Hello'', js ''Hello back''] =
      [line_segment meetingId lang (js ''Speaker 1: Hello''),
       line_segment meetingId lang (js ''Hello back'')]"
    unfolding parse_lines.simps example_lines by simp
  then show ?thesis
    unfolding build_segments_def example_lines example_segments by simp
qed


lemma trim_last: "trim s \<noteq> [] \<Longrightarrow> \<not> is_space (last (trim s))"
proof -
  assume n: "trim s \<noteq> []"
  let ?v = "dropWhile is_space (rev (dropWhile is_space s))"
  from n have v: "?v \<noteq> []"
    by (simp add: trim_def)
  have "last (trim s) = hd ?v"
    using v by (simp add: trim_def last_rev)
  with hd_dropWhile [OF v] show ?thesis by simp
qed

lemma trim_idem: "trim (trim s) = trim s"
  using trim_hd [of s] trim_last [of s] by (auto simp: trimmed_ends)

lemma line_segment_matched:
  assumes t: "trim line = line"
    and l: "line = w @ ws1 @ ds @ ws2 @ [58] @ ws3 @ rest"
    and c: "ci_word ''SPEAKER'' w" "list_all is_space ws1" "ds \<noteq> []" "list_all is_digit ds"
      "list_all is_space ws2" "list_all is_space ws3"
    and rr: "rest = [] \<or> \<not> is_space (hd rest)"
  shows "line_segment meetingId lang line =
          \<lparr>seg_meeting_id = meetingId, speaker_label = Some (w @ ws1 @ ds), seg_text = rest,
           start_seconds = 0, end_seconds = 0, confidence = None, seg_language = lang\<rparr>"
proof -
  have m: "match_speaker line = Some (w @ ws1 @ ds @ ws2 @ [58] @ ws3, w @ ws1 @ ds)"
    unfolding l using c rr by (rule match_speaker_complete)
  have l': "line = (w @ ws1 @ ds @ ws2 @ [58] @ ws3) @ rest"
    using l by simp
  then have "prefix (w @ ws1 @ ds @ ws2 @ [58] @ ws3) line"
    by (metis prefixI)
  then have "replace_first (w @ ws1 @ ds @ ws2 @ [58] @ ws3) line
      = drop (length (w @ ws1 @ ds @ ws2 @ [58] @ ws3)) line"
    by (rule replace_first_prefix)
  also have "\<dots> = rest"
    by (subst l') simp
  finally have r: "replace_first (w @ ws1 @ ds @ ws2 @ [58] @ ws3) line = rest" .
  have tr: "trim ((w @ ws1 @ ds @ ws2 @ [58] @ ws3) @ rest) = (w @ ws1 @ ds @ ws2 @ [58] @ ws3) @ rest"
    using t l' by metis
  have "trim rest = rest"
    by (rule trim_rest [OF tr rr])
  with r have "trim (replace_first (w @ ws1 @ ds @ ws2 @ [58] @ ws3) line) = rest"
    by (simp only:)
  then show ?thesis
    unfolding line_segment_def m by simp
qed

lemma unmatched_None:
  assumes "\<nexists>w ws1 ds ws2 r. line = w @ ws1 @ ds @ ws2 @ [58] @ r \<and> ci_word ''SPEAKER'' w
          \<and> list_all is_space ws1 \<and> ds \<noteq> [] \<and> list_all is_digit ds \<and> list_all is_space ws2"
  shows "match_speaker line = None"
proof (cases "match_speaker line")
  case None
  then show ?thesis .
next
  case (Some p)
  then obtain m0 m1 where "match_speaker line = Some (m0, m1)"
    by (cases p) simp
  from match_speaker_sound [OF this] assms show ?thesis by blast
qed

lemma inaudible_line:
  "trim (js ''[inaudible]'') = js ''[inaudible]''"
  "split_lines (js ''[inaudible]'') = [js ''[inaudible]'']"
  "match_speaker (js ''[inaudible]'') = None"
  by (simp_all add: trim_def is_space_def match_speaker_def ci_word_def)

lemma segment_of_line:
  assumes "i < length (transcript_lines transcript)"
  shows "i < length (build_segments meetingId lang transcript)
     \<and> trim (transcript_lines transcript ! i) = transcript_lines transcript ! i
     \<and> (match_speaker (transcript_lines transcript ! i) = None \<longrightarrow>
          speaker_label (build_segments meetingId lang transcript ! i) = None)
     \<and> (match_speaker (transcript_lines transcript ! i) \<noteq> None \<longrightarrow>
          build_segments meetingId lang transcript ! i =
            line_segment meetingId lang (transcript_lines transcript ! i))"
proof -
  consider (blank) "trim transcript = []" | (inaudible) "trim transcript = js ''[inaudible]''"
    | (speech) "trim transcript \<noteq> [] \<and> trim transcript \<noteq> js ''[inaudible]''"
    by blast
  then show ?thesis
  proof cases
    case blank
    have "trim [] = []"
      by (simp add: trim_def)
    then have "transcript_lines transcript = []"
      unfolding transcript_lines_def blank by simp
    with assms show ?thesis by simp
  next
    case inaudible
    have l: "transcript_lines transcript = [js ''[inaudible]'']"
      unfolding transcript_lines_def inaudible using inaudible_line(1,2) by simp
    have b: "build_segments meetingId lang transcript = [no_speech_segment meetingId lang]"
      unfolding build_segments_def inaudible by simp
    from assms l have "i = 0" by simp
    then show ?thesis
      unfolding l b using inaudible_line by (simp add: no_speech_segment_def)
  next
    case speech
    then have "parse_lines meetingId lang (split_lines (trim transcript)) \<noteq> []"
      by (simp add: parse_lines_nonempty)
    with speech have "build_segments meetingId lang transcript =
        parse_lines meetingId lang (split_lines (trim transcript))"
      by (simp add: build_segments_def)
    then have b: "build_segments meetingId lang transcript =
        map (line_segment meetingId lang) (transcript_lines transcript)"
      by (simp add: parse_lines_map transcript_lines_def)
    have "transcript_lines transcript ! i \<in> set (transcript_lines transcript)"
      using assms by simp
    then obtain l where "transcript_lines transcript ! i = trim l"
      unfolding transcript_lines_def by auto
    then have t: "trim (transcript_lines transcript ! i) = transcript_lines transcript ! i"
      by (simp add: trim_idem)
    show ?thesis
      unfolding b using assms t by (simp add: line_segment_def)
  qed
qed

lemma every_line_segment:
  "\<forall>i < length (transcript_lines transcript).
        i < length (build_segments meetingId lang transcript)
        \<and> (\<forall>w ws1 ds ws2 ws3 rest.
              transcript_lines transcript ! i = w @ ws1 @ ds @ ws2 @ [58] @ ws3 @ rest
              \<and> ci_word ''SPEAKER'' w \<and> list_all is_space ws1 \<and> ds \<noteq> []
              \<and> list_all is_digit ds \<and> list_all is_space ws2 \<and> list_all is_space ws3
              \<and> (rest = [] \<or> \<not> is_space (hd rest))
            \<longrightarrow> speaker_label (build_segments meetingId lang transcript ! i)
                  = Some (w @ ws1 @ ds)
                \<and> seg_text (build_segments meetingId lang transcript ! i) = rest)
        \<and> ((\<nexists>w ws1 ds ws2 r.
               transcript_lines transcript ! i = w @ ws1 @ ds @ ws2 @ [58] @ r
               \<and> ci_word ''SPEAKER'' w \<and> list_all is_space ws1 \<and> ds \<noteq> []
               \<and> list_all is_digit ds \<and> list_all is_space ws2)
            \<longrightarrow> speaker_label (build_segments meetingId lang transcript ! i) = None)"
proof (intro allI impI)
  fix i
  assume i: "i < length (transcript_lines transcript)"
  note s = segment_of_line [OF i, of meetingId lang]
  have len: "i < length (build_segments meetingId lang transcript)"
    using s by (rule conjunct1)
  have tr: "trim (transcript_lines transcript ! i) = transcript_lines transcript ! i"
    using s [THEN conjunct2] by (rule conjunct1)
  have none: "match_speaker (transcript_lines transcript ! i) = None \<longrightarrow>
      speaker_label (build_segments meetingId lang transcript ! i) = None"
    using s [THEN conjunct2, THEN conjunct2] by (rule conjunct1)
  have some: "match_speaker (transcript_lines transcript ! i) \<noteq> None \<longrightarrow>
      build_segments meetingId lang transcript ! i =
        line_segment meetingId lang (transcript_lines transcript ! i)"
    using s [THEN conjunct2, THEN conjunct2] by (rule conjunct2)
  have yes: "speaker_label (build_segments meetingId lang transcript ! i) = Some (w @ ws1 @ ds)
      \<and> seg_text (build_segments meetingId lang transcript ! i) = rest"
    if l: "transcript_lines transcript ! i = w @ ws1 @ ds @ ws2 @ [58] @ ws3 @ rest"
      and c: "ci_word ''SPEAKER'' w" "list_all is_space ws1" "ds \<noteq> []" "list_all is_digit ds"
        "list_all is_space ws2" "list_all is_space ws3"
      and rr: "rest = [] \<or> \<not> is_space (hd rest)"
    for w ws1 ds ws2 ws3 rest
  proof -
    have "match_speaker (w @ ws1 @ ds @ ws2 @ [58] @ ws3 @ rest)
        = Some (w @ ws1 @ ds @ ws2 @ [58] @ ws3, w @ ws1 @ ds)"
      using c rr by (rule match_speaker_complete)
    then have "match_speaker (transcript_lines transcript ! i) \<noteq> None"
      unfolding l by simp
    with some have e: "build_segments meetingId lang transcript ! i =
        line_segment meetingId lang (transcript_lines transcript ! i)"
      by (rule mp)
    have "line_segment meetingId lang (transcript_lines transcript ! i) =
          \<lparr>seg_meeting_id = meetingId, speaker_label = Some (w @ ws1 @ ds), seg_text = rest,
           start_seconds = 0, end_seconds = 0, confidence = None, seg_language = lang\<rparr>"
      using tr l c rr by (rule line_segment_matched)
    with e show ?thesis by simp
  qed
  have no: "speaker_label (build_segments meetingId lang transcript ! i) = None"
    if n: "\<nexists>w ws1 ds ws2 r.
               transcript_lines transcript ! i = w @ ws1 @ ds @ ws2 @ [58] @ r
               \<and> ci_word ''SPEAKER'' w \<and> list_all is_space ws1 \<and> ds \<noteq> []
               \<and> list_all is_digit ds \<and> list_all is_space ws2"
  proof -
    from n have "match_speaker (transcript_lines transcript ! i) = None"
      by (rule unmatched_None)
    with none show ?thesis by (rule mp)
  qed
  show "i < length (build_segments meetingId lang transcript)
        \<and> (\<forall>w ws1 ds ws2 ws3 rest.
              transcript_lines transcript ! i = w @ ws1 @ ds @ ws2 @ [58] @ ws3 @ rest
              \<and> ci_word ''SPEAKER'' w \<and> list_all is_space ws1 \<and> ds \<noteq> []
              \<and> list_all is_digit ds \<and> list_all is_space ws2 \<and> list_all is_space ws3
              \<and> (rest = [] \<or> \<not> is_space (hd rest))
            \<longrightarrow> speaker_label (build_segments meetingId lang transcript ! i)
                  = Some (w @ ws1 @ ds)
                \<and> seg_text (build_segments meetingId lang transcript ! i) = rest)
        \<and> ((\<nexists>w ws1 ds ws2 r.
               transcript_lines transcript ! i = w @ ws1 @ ds @ ws2 @ [58] @ r
               \<and> ci_word ''SPEAKER'' w \<and> list_all is_space ws1 \<and> ds \<noteq> []
               \<and> list_all is_digit ds \<and> list_all is_space ws2)
            \<longrightarrow> speaker_label (build_segments meetingId lang transcript ! i) = None)"
  proof (intro conjI)
    show "i < length (build_segments meetingId lang transcript)"
      by (rule len)
    show "\<forall>w ws1 ds ws2 ws3 rest.
              transcript_lines transcript ! i = w @ ws1 @ ds @ ws2 @ [58] @ ws3 @ rest
              \<and> ci_word ''SPEAKER'' w \<and> list_all is_space ws1 \<and> ds \<noteq> []
              \<and> list_all is_digit ds \<and> list_all is_space ws2 \<and> list_all is_space ws3
              \<and> (rest = [] \<or> \<not> is_space (hd rest))
            \<longrightarrow> speaker_label (build_segments meetingId lang transcript ! i)
                  = Some (w @ ws1 @ ds)
                \<and> seg_text (build_segments meetingId lang transcript ! i) = rest"
      by (intro allI impI, elim conjE, rule yes)
    show "(\<nexists>w ws1 ds ws2 r.
               transcript_lines transcript ! i = w @ ws1 @ ds @ ws2 @ [58] @ r
               \<and> ci_word ''SPEAKER'' w \<and> list_all is_space ws1 \<and> ds \<noteq> []
               \<and> list_all is_digit ds \<and> list_all is_space ws2)
            \<longrightarrow> speaker_label (build_segments meetingId lang transcript ! i) = None"
      by (rule impI, rule no)
  qed
qed

text \<open>
  C6. The transcript is parsed line by line, each line trimmed and blank lines
  skipped. A trimmed line that starts with the word \<^verbatim>\<open>Speaker\<close> in any mix of upper
  and lower case, then optional white space, digits, optional white space, a colon and
  optional white space, gives a segment whose label is the matched word, white space
  and digits, and whose text is the rest of the line. Any other line that is not blank
  gives a segment without label. Both hold of the lines of every transcript; for the
  transcript \<^verbatim>\<open>[inaudible]\<close> the segment of its only line is the one of the recording
  without speech. A transcript that is neither blank nor \<^verbatim>\<open>[inaudible]\<close> gives exactly
  the segments of its lines, the text of a segment without label being its line. The
  transcript \<^verbatim>\<open>Speaker 1: Hello\nHello back\<close> gives two segments: \<^verbatim>\<open>Speaker 1\<close> with
  \<^verbatim>\<open>Hello\<close>, and no label with \<^verbatim>\<open>Hello back\<close>.
\<close>

theorem parse_transcript_lines:
  "(trim line = line \<and> line = w @ ws1 @ ds @ ws2 @ [58] @ ws3 @ rest
      \<and> ci_word ''SPEAKER'' w \<and> list_all is_space ws1 \<and> ds \<noteq> [] \<and> list_all is_digit ds
      \<and> list_all is_space ws2 \<and> list_all is_space ws3 \<and> (rest = [] \<or> \<not> is_space (hd rest))
    \<longrightarrow> line_segment meetingId lang line =
          \<lparr>seg_meeting_id = meetingId, speaker_label = Some (w @ ws1 @ ds), seg_text = rest,
           start_seconds = 0, end_seconds = 0, confidence = None, seg_language = lang\<rparr>)
   \<and> ((\<nexists>w ws1 ds ws2 r. line = w @ ws1 @ ds @ ws2 @ [58] @ r \<and> ci_word ''SPEAKER'' w
          \<and> list_all is_space ws1 \<and> ds \<noteq> [] \<and> list_all is_digit ds \<and> list_all is_space ws2)
    \<longrightarrow> line_segment meetingId lang line =
          \<lparr>seg_meeting_id = meetingId, speaker_label = None, seg_text = line,
           start_seconds = 0, end_seconds = 0, confidence = None, seg_language = lang\<rparr>)
   \<and> parse_lines meetingId lang ls =
        map (line_segment meetingId lang) (filter (\<lambda>l. l \<noteq> []) (map trim ls))
   \<and> (trim transcript \<noteq> [] \<and> trim transcript \<noteq> js ''[inaudible]''
    \<longrightarrow> build_segments meetingId lang transcript =
          parse_lines meetingId lang (split_lines (trim transcript)))
   \<and> (\<forall>i < length (transcript_lines transcript).
        i < length (build_segments meetingId lang transcript)
        \<and> (\<forall>w ws1 ds ws2 ws3 rest.
              transcript_lines transcript ! i = w @ ws1 @ ds @ ws2 @ [58] @ ws3 @ rest
              \<and> ci_word ''SPEAKER'' w \<and> list_all is_space ws1 \<and> ds \<noteq> []
              \<and> list_all is_digit ds \<and> list_all is_space ws2 \<and> list_all is_space ws3
              \<and> (rest = [] \<or> \<not> is_space (hd rest))
            \<longrightarrow> speaker_label (build_segments meetingId lang transcript ! i)
                  = Some (w @ ws1 @ ds)
                \<and> seg_text (build_segments meetingId lang transcript ! i) = rest)
        \<and> ((\<nexists>w ws1 ds ws2 r.
               transcript_lines transcript ! i = w @ ws1 @ ds @ ws2 @ [58] @ r
               \<and> ci_word ''SPEAKER'' w \<and> list_all is_space ws1 \<and> ds \<noteq> []
               \<and> list_all is_digit ds \<and> list_all is_space ws2)
            \<longrightarrow> speaker_label (build_segments meetingId lang transcript ! i) = None))
   \<and> build_segments meetingId lang (js ''Speaker 1: Hello'' @ [10] @ js ''Hello back'') =
       [\<lparr>seg_meeting_id = meetingId, speaker_label = Some (js ''Speaker 1''),
         seg_text = js ''Hello'', start_seconds = 0, end_seconds = 0, confidence = None,
         seg_language = lang\<rparr>,
        \<lparr>seg_meeting_id = meetingId, speaker_label = None, seg_text = js ''Hello back'',
         start_seconds = 0, end_seconds = 0, confidence = None, seg_language = lang\<rparr>]"
proof -
  have matched: "trim line = line \<and> line = w @ ws1 @ ds @ ws2 @ [58] @ ws3 @ rest
      \<and> ci_word ''SPEAKER'' w \<and> list_all is_space ws1 \<and> ds \<noteq> [] \<and> list_all is_digit ds
      \<and> list_all is_space ws2 \<and> list_all is_space ws3 \<and> (rest = [] \<or> \<not> is_space (hd rest))
    \<longrightarrow> line_segment meetingId lang line =
          \<lparr>seg_meeting_id = meetingId, speaker_label = Some (w @ ws1 @ ds), seg_text = rest,
           start_seconds = 0, end_seconds = 0, confidence = None, seg_language = lang\<rparr>"
    by (rule impI, elim conjE, rule line_segment_matched)
  have unmatched: "(\<nexists>w ws1 ds ws2 r. line = w @ ws1 @ ds @ ws2 @ [58] @ r \<and> ci_word ''SPEAKER'' w
          \<and> list_all is_space ws1 \<and> ds \<noteq> [] \<and> list_all is_digit ds \<and> list_all is_space ws2)
    \<longrightarrow> line_segment meetingId lang line =
          \<lparr>seg_meeting_id = meetingId, speaker_label = None, seg_text = line,
           start_seconds = 0, end_seconds = 0, confidence = None, seg_language = lang\<rparr>"
  proof
    assume "\<nexists>w ws1 ds ws2 r. line = w @ ws1 @ ds @ ws2 @ [58] @ r \<and> ci_word ''SPEAKER'' w
          \<and> list_all is_space ws1 \<and> ds \<noteq> [] \<and> list_all is_digit ds \<and> list_all is_space ws2"
    then have "match_speaker line = None"
      by (rule unmatched_None)
    then show "line_segment meetingId lang line =
          \<lparr>seg_meeting_id = meetingId, speaker_label = None, seg_text = line,
           start_seconds = 0, end_seconds = 0, confidence = None, seg_language = lang\<rparr>"
      by (simp add: line_segment_def)
  qed
  have lines: "parse_lines meetingId lang ls =
        map (line_segment meetingId lang) (filter (\<lambda>l. l \<noteq> []) (map trim ls))"
    by (rule parse_lines_map)
  have speech: "trim transcript \<noteq> [] \<and> trim transcript \<noteq> js ''[inaudible]''
    \<longrightarrow> build_segments meetingId lang transcript =
          parse_lines meetingId lang (split_lines (trim transcript))"
  proof
    assume t: "trim transcript \<noteq> [] \<and> trim transcript \<noteq> js ''[inaudible]''"
    then have "parse_lines meetingId lang (split_lines (trim transcript)) \<noteq> []"
      by (simp add: parse_lines_nonempty)
    with t show "build_segments meetingId lang transcript =
          parse_lines meetingId lang (split_lines (trim transcript))"
      by (simp add: build_segments_def)
  qed
  have every: "\<forall>i < length (transcript_lines transcript).
        i < length (build_segments meetingId lang transcript)
        \<and> (\<forall>w ws1 ds ws2 ws3 rest.
              transcript_lines transcript ! i = w @ ws1 @ ds @ ws2 @ [58] @ ws3 @ rest
              \<and> ci_word ''SPEAKER'' w \<and> list_all is_space ws1 \<and> ds \<noteq> []
              \<and> list_all is_digit ds \<and> list_all is_space ws2 \<and> list_all is_space ws3
              \<and> (rest = [] \<or> \<not> is_space (hd rest))
            \<longrightarrow> speaker_label (build_segments meetingId lang transcript ! i)
                  = Some (w @ ws1 @ ds)
                \<and> seg_text (build_segments meetingId lang transcript ! i) = rest)
        \<and> ((\<nexists>w ws1 ds ws2 r.
               transcript_lines transcript ! i = w @ ws1 @ ds @ ws2 @ [58] @ r
               \<and> ci_word ''SPEAKER'' w \<and> list_all is_space ws1 \<and> ds \<noteq> []
               \<and> list_all is_digit ds \<and> list_all is_space ws2)
            \<longrightarrow> speaker_label (build_segments meetingId lang transcript ! i) = None)"
    by (rule every_line_segment)
  from matched unmatched lines speech every example_transcript [of meetingId lang]
  show ?thesis
    by (intro conjI)
qed

theorem parse_transcript_lines_witness:
  "trim (js ''SPEAKER 2 :  ok'') = js ''SPEAKER 2 :  ok''
   \<and> js ''SPEAKER 2 :  ok'' = js ''SPEAKER'' @ [32] @ js ''2'' @ [32] @ [58] @ [32, 32] @ js ''ok''
   \<and> ci_word ''SPEAKER'' (js ''SPEAKER'')
   \<and> line_segment (js ''m1'') (js ''en-US'') (js ''SPEAKER 2 :  ok'') =
        \<lparr>seg_meeting_id = js ''m1'', speaker_label = Some (js ''SPEAKER 2''), seg_text = js ''ok'',
         start_seconds = 0, end_seconds = 0, confidence = None, seg_language = js ''en-US''\<rparr>
   \<and> line_segment (js ''m1'') (js ''en-US'') (js ''Hello back'') =
        \<lparr>seg_meeting_id = js ''m1'', speaker_label = None, seg_text = js ''Hello back'',
         start_seconds = 0, end_seconds = 0, confidence = None, seg_language = js ''en-US''\<rparr>
   \<and> build_segments (js ''m1'') (js ''en-US'') (js ''SPEAKER 2 :  ok'') =
        parse_lines (js ''m1'') (js ''en-US'') (split_lines (trim (js ''SPEAKER 2 :  ok'')))
   \<and> transcript_lines (js ''[inaudible]'') = [js ''[inaudible]'']
   \<and> speaker_label (build_segments (js ''m1'') (js ''en-US'') (js ''[inaudible]'') ! 0) = None
   \<and> transcript_lines (js ''SPEAKER 2 :  ok'') = [js ''SPEAKER 2 :  ok'']
   \<and> speaker_label (build_segments (js ''m1'') (js ''en-US'') (js ''SPEAKER 2 :  ok'') ! 0)
        = Some (js ''SPEAKER 2'')
   \<and> seg_text (build_segments (js ''m1'') (js ''en-US'') (js ''SPEAKER 2 :  ok'') ! 0) = js ''ok''"
proof -
  have h1: "trim (js ''SPEAKER 2 :  ok'') = js ''SPEAKER 2 :  ok''
      \<and> js ''SPEAKER 2 :  ok'' = js ''SPEAKER'' @ [32] @ js ''2'' @ [32] @ [58] @ [32, 32] @ js ''ok''
      \<and> ci_word ''SPEAKER'' (js ''SPEAKER'') \<and> list_all is_space [32] \<and> js ''2'' \<noteq> []
      \<and> list_all is_digit (js ''2'') \<and> list_all is_space [32] \<and> list_all is_space [32, 32]
      \<and> (js ''ok'' = [] \<or> \<not> is_space (hd (js ''ok'')))"
    by (simp add: trim_def is_space_def is_digit_def ci_word_def)
  have h2: "\<nexists>w ws1 ds ws2 r. js ''Hello back'' = w @ ws1 @ ds @ ws2 @ [58] @ r
      \<and> ci_word ''SPEAKER'' w \<and> list_all is_space ws1 \<and> ds \<noteq> [] \<and> list_all is_digit ds
      \<and> list_all is_space ws2"
    by (auto simp: ci_word_def list_all2_Cons2)
  have h3: "trim (js ''SPEAKER 2 :  ok'') \<noteq> [] \<and> trim (js ''SPEAKER 2 :  ok'') \<noteq> js ''[inaudible]''"
    by (simp add: trim_def is_space_def)
  have l1: "transcript_lines (js ''[inaudible]'') = [js ''[inaudible]'']"
    by (simp add: transcript_lines_def trim_def is_space_def)
  have l2: "transcript_lines (js ''SPEAKER 2 :  ok'') = [js ''SPEAKER 2 :  ok'']"
    by (simp add: transcript_lines_def trim_def is_space_def)
  have h4: "\<nexists>w ws1 ds ws2 r. transcript_lines (js ''[inaudible]'') ! 0
        = w @ ws1 @ ds @ ws2 @ [58] @ r
      \<and> ci_word ''SPEAKER'' w \<and> list_all is_space ws1 \<and> ds \<noteq> [] \<and> list_all is_digit ds
      \<and> list_all is_space ws2"
    unfolding l1 by (auto simp: ci_word_def list_all2_Cons2)
  have h5: "transcript_lines (js ''SPEAKER 2 :  ok'') ! 0
        = js ''SPEAKER'' @ [32] @ js ''2'' @ [32] @ [58] @ [32, 32] @ js ''ok''
      \<and> ci_word ''SPEAKER'' (js ''SPEAKER'') \<and> list_all is_space [32] \<and> js ''2'' \<noteq> []
      \<and> list_all is_digit (js ''2'') \<and> list_all is_space [32] \<and> list_all is_space [32, 32]
      \<and> (js ''ok'' = [] \<or> \<not> is_space (hd (js ''ok'')))"
    unfolding l2 nth_Cons_0 using h1 by blast
  note t1 = parse_transcript_lines [of "js ''SPEAKER 2 :  ok''" "js ''SPEAKER''" "[32]" "js ''2''"
      "[32]" "[32, 32]" "js ''ok''" "js ''m1''" "js ''en-US''" "[]" "js ''SPEAKER 2 :  ok''"]
  note t2 = parse_transcript_lines [of "js ''Hello back''" "[]" "[]" "[]" "[]" "[]" "[]"
      "js ''m1''" "js ''en-US''" "[]" "js ''[inaudible]''"]
  from t1 [THEN conjunct1] h1
  have a: "line_segment (js ''m1'') (js ''en-US'') (js ''SPEAKER 2 :  ok'') =
        \<lparr>seg_meeting_id = js ''m1'', speaker_label = Some (js ''SPEAKER'' @ [32] @ js ''2''),
         seg_text = js ''ok'',
         start_seconds = 0, end_seconds = 0, confidence = None, seg_language = js ''en-US''\<rparr>"
    by (rule mp)
  from t1 [THEN conjunct2, THEN conjunct2, THEN conjunct2, THEN conjunct1] h3
  have c: "build_segments (js ''m1'') (js ''en-US'') (js ''SPEAKER 2 :  ok'') =
        parse_lines (js ''m1'') (js ''en-US'') (split_lines (trim (js ''SPEAKER 2 :  ok'')))"
    by (rule mp)
  from t2 [THEN conjunct2, THEN conjunct1] h2
  have b: "line_segment (js ''m1'') (js ''en-US'') (js ''Hello back'') =
        \<lparr>seg_meeting_id = js ''m1'', speaker_label = None, seg_text = js ''Hello back'',
         start_seconds = 0, end_seconds = 0, confidence = None, seg_language = js ''en-US''\<rparr>"
    by (rule mp)
  have z1: "0 < length (transcript_lines (js ''[inaudible]''))"
    and z2: "0 < length (transcript_lines (js ''SPEAKER 2 :  ok''))"
    unfolding l1 l2 by simp_all
  note e2 = t2 [THEN conjunct2, THEN conjunct2, THEN conjunct2, THEN conjunct2, THEN conjunct1,
      rule_format, OF z1]
  note e1 = t1 [THEN conjunct2, THEN conjunct2, THEN conjunct2, THEN conjunct2, THEN conjunct1,
      rule_format, OF z2]
  from e2 [THEN conjunct2, THEN conjunct2] h4
  have d: "speaker_label (build_segments (js ''m1'') (js ''en-US'') (js ''[inaudible]'') ! 0) = None"
    by (rule mp)
  from e1 [THEN conjunct2, THEN conjunct1, rule_format, OF h5]
  have f: "speaker_label (build_segments (js ''m1'') (js ''en-US'') (js ''SPEAKER 2 :  ok'') ! 0)
        = Some (js ''SPEAKER'' @ [32] @ js ''2'')"
    "seg_text (build_segments (js ''m1'') (js ''en-US'') (js ''SPEAKER 2 :  ok'') ! 0) = js ''ok''"
    by blast+
  from h1 a b c l1 l2 d f show ?thesis by simp
qed

theorem lowercase_speaker_counterexample:
  "take 7 (js ''speaker 1: Hello'') \<noteq> js ''Speaker''
   \<and> trim (js ''speaker 1: Hello'') = js ''speaker 1: Hello''
   \<and> build_segments (js ''m1'') (js ''en-US'') (js ''speaker 1: Hello'') =
       [\<lparr>seg_meeting_id = js ''m1'', speaker_label = Some (js ''speaker 1''),
         seg_text = js ''Hello'', start_seconds = 0, end_seconds = 0, confidence = None,
         seg_language = js ''en-US''\<rparr>]"
proof -
  have t: "trim (js ''speaker 1: Hello'') = js ''speaker 1: Hello''"
    by (simp add: trim_def is_space_def)
  have s: "split_lines (js ''speaker 1: Hello'') = [js ''speaker 1: Hello'']"
    by simp
  have m: "match_speaker (js ''speaker 1: Hello'') = Some (js ''speaker 1: '', js ''speaker 1'')"
    by (simp add: match_speaker_def ci_word_def is_space_def is_digit_def)
  have l: "line_segment (js ''m1'') (js ''en-US'') (js ''speaker 1: Hello'') =
      \<lparr>seg_meeting_id = js ''m1'', speaker_label = Some (js ''speaker 1''),
         seg_text = js ''Hello'', start_seconds = 0, end_seconds = 0, confidence = None,
         seg_language = js ''en-US''\<rparr>"
    unfolding line_segment_def m by (simp add: trim_def is_space_def)
  have p: "parse_lines (js ''m1'') (js ''en-US'') [js ''speaker 1: Hello''] =
      [line_segment (js ''m1'') (js ''en-US'') (js ''speaker 1: Hello'')]"
    unfolding parse_lines.simps t by simp
  have b: "build_segments (js ''m1'') (js ''en-US'') (js ''speaker 1: Hello'') =
      [line_segment (js ''m1'') (js ''en-US'') (js ''speaker 1: Hello'')]"
    unfolding build_segments_def t s p by simp
  show ?thesis
    unfolding b l using t by simp
qed

end
